theory Spec2Isabelle
  imports Main "HOL-Library.AList" "HOL-Library.Sublist"
begin

section \<open>The table initialisation script \<^verbatim>\<open>script/project/dataTables.js\<close>\<close>

text \<open>
  The script is an AMD module with one function, \<^verbatim>\<open>dataTables.init\<close>. It runs in a browser
  against a document, through jQuery, and calls two pieces of code that are not part of
  the file: the DataTables plug-in (\<^verbatim>\<open>dataTable\<close>, \<^verbatim>\<open>fnFilter\<close>) and the module
  \<^verbatim>\<open>helpers\<close> (\<^verbatim>\<open>codeBaseBranchOverview\<close>). The embedding has three layers:
  \<^item> the document and the jQuery calls the script makes on it;
  \<^item> the external code, taken as a parameter;
  \<^item> the script itself, statement by statement, as a function on the page state.
\<close>

subsection \<open>The document\<close>

text \<open>
  An element is an object with an identity (\<open>ref\<close>). The trees hold references only;
  what an element carries (tag name, \<^verbatim>\<open>id\<close>, class list, attributes, the value of an
  input field, whether it is disabled, whether it is rendered) is read through the
  reference, as a script that keeps an element in a variable reads it: after other code
  has changed the page, the variable still denotes the same object with its present state.
  Tag names are stored as the selector engine compares them (lower case).

  The elements form the document tree (\<open>root\<close>) and the trees that have been taken out of
  the document and are still referenced (\<open>detached\<close>): an element that is removed from the
  document keeps its children, so code that takes a tree out of the document moves it to
  \<open>detached\<close>. An element that occurs in none of the trees has no children.
  \<open>disabled\<close> and \<open>hidden\<close> are the states as the browser computes them (\<open>hidden\<close>:
  the element is not rendered).
\<close>

type_synonym ref = nat

datatype node = Node (ref: ref) (childNodes: "node list")

record element =
  tagName :: string
  ident :: string
  classes :: "string list"
  attrs :: "(string \<times> string) list"
  val :: string
  disabled :: bool
  hidden :: bool

record document =
  root :: node
  detached :: "node list"
  elem :: "ref \<Rightarrow> element"
  activeElement :: "ref option"

text \<open>All nodes of a tree in document order (a node before its children).\<close>

fun subtrees :: "node \<Rightarrow> node list" where
  "subtrees (Node r ks) = Node r ks # concat (map subtrees ks)"

definition descendants :: "node \<Rightarrow> ref list" where
  "descendants n = map ref (concat (map subtrees (childNodes n)))"

text \<open>The elements of the document, in document order.\<close>

definition elements :: "document \<Rightarrow> ref list" where
  "elements d = map ref (subtrees (root d))"

text \<open>
  Every node of the page, the document first; and the node of an element, in the document
  or detached from it, which gives the children the element has now.
\<close>

definition nodes :: "document \<Rightarrow> node list" where
  "nodes d = concat (map subtrees (root d # detached d))"

definition node_of :: "document \<Rightarrow> ref \<Rightarrow> node option" where
  "node_of d r = find (\<lambda>n. ref n = r) (nodes d)"

text \<open>\<^verbatim>\<open>$(el).hasClass(c)\<close>\<close>

definition hasClass :: "document \<Rightarrow> ref \<Rightarrow> string \<Rightarrow> bool" where
  "hasClass d r c = (c \<in> set (classes (elem d r)))"

text \<open>\<^verbatim>\<open>$('.c')\<close>: every element of the document with the class, in document order.\<close>

definition select_class :: "document \<Rightarrow> string \<Rightarrow> ref list" where
  "select_class d c = filter (\<lambda>r. hasClass d r c) (elements d)"

text \<open>\<^verbatim>\<open>$('#i')\<close>: the first element of the document with that id, if there is one.\<close>

definition select_id :: "document \<Rightarrow> string \<Rightarrow> ref list" where
  "select_id d i = take 1 (filter (\<lambda>r. ident (elem d r) = i) (elements d))"

text \<open>
  A descendant selector \<^verbatim>\<open>A B\<close>: the elements matching \<open>B\<close> that lie below an element
  matching \<open>A\<close>, each once, in document order. The flag says whether an ancestor matched.
\<close>

fun below :: "(ref \<Rightarrow> bool) \<Rightarrow> (ref \<Rightarrow> bool) \<Rightarrow> bool \<Rightarrow> node \<Rightarrow> ref list" where
  "below A B inside (Node r ks) =
     (if inside \<and> B r then [r] else []) @ concat (map (below A B (inside \<or> A r)) ks)"

text \<open>\<^verbatim>\<open>$('.dataTables_filter input')\<close>\<close>

definition select_filter_input :: "document \<Rightarrow> ref list" where
  "select_filter_input d =
     below (\<lambda>r. hasClass d r ''dataTables_filter'') (\<lambda>r. tagName (elem d r) = ''input'')
       False (root d)"

text \<open>
  \<^verbatim>\<open>$('> thead th', this)\<close>: the \<^verbatim>\<open>th\<close> elements below a \<^verbatim>\<open>thead\<close> that is a child of
  \<open>this\<close>, in the order of the tree. The search starts at the element \<open>this\<close> itself,
  whether or not it is still in the document.
\<close>

definition select_thead_th :: "document \<Rightarrow> ref \<Rightarrow> ref list" where
  "select_thead_th d this =
     (case node_of d this of
        None \<Rightarrow> []
      | Some n \<Rightarrow>
          concat (map (\<lambda>k. if tagName (elem d (ref k)) = ''thead''
                           then filter (\<lambda>r. tagName (elem d r) = ''th'') (descendants k)
                           else [])
                   (childNodes n)))"

text \<open>\<^verbatim>\<open>sel.attr(k, v)\<close> sets the attribute on every element of the selection.\<close>

definition attr :: "document \<Rightarrow> ref list \<Rightarrow> string \<Rightarrow> string \<Rightarrow> document" where
  "attr d sel k v =
     d\<lparr>elem := (\<lambda>r. if r \<in> set sel
                       then (elem d r)\<lparr>attrs := AList.update k v (attrs (elem d r))\<rparr>
                       else elem d r)\<rparr>"

text \<open>
  \<^verbatim>\<open>sel.focus()\<close> calls \<^verbatim>\<open>focus\<close> on each element of the selection in turn. The call
  moves the focus to the element when the element can take it: it is in the document, it
  is not disabled and it is rendered. On any other element the call does nothing and the
  focus stays where it was. So afterwards the last element of the selection that can take
  the focus has it. (The script calls it on \<^verbatim>\<open>input\<close> elements.)
\<close>

definition focusable :: "document \<Rightarrow> ref \<Rightarrow> bool" where
  "focusable d r = (r \<in> set (elements d) \<and> \<not> disabled (elem d r) \<and> \<not> hidden (elem d r))"

definition focus :: "document \<Rightarrow> ref list \<Rightarrow> document" where
  "focus d sel = foldl (\<lambda>d' r. if focusable d' r then d'\<lparr>activeElement := Some r\<rparr> else d') d sel"

subsection \<open>The configuration object\<close>

text \<open>
  The object literal of lines 16 to 41 and the properties assigned later. A property the
  script has not assigned is \<open>None\<close>; a \<^verbatim>\<open>null\<close> entry of \<^verbatim>\<open>aoColumns\<close> is \<open>None\<close> too.
  \<^verbatim>\<open>oLanguage\<close> is an object literal, kept as its list of properties.
\<close>

record column =
  bSortable :: bool

record optionTable =
  bPaginate :: bool
  bLengthChange :: bool
  bFilter :: bool
  bSort :: bool
  bInfo :: bool
  bAutoWidth :: bool
  sDom :: string
  bRetrieve :: bool
  asSorting :: bool
  bServerSide :: bool
  bSearchable :: bool
  aaSorting :: "(nat \<times> string) list"
  iDisplayLength :: int
  bStateSave :: bool
  oLanguage :: "(string \<times> string) list option"
  aoColumns :: "column option list option"

text \<open>Lines 14 to 79: the configuration built for the table \<open>this\<close> in the document \<open>d\<close>.\<close>

definition build_optionTable :: "document \<Rightarrow> ref \<Rightarrow> optionTable" where
  \<open>build_optionTable d this =
     (let colList = [];
          optionTable = \<lparr>
            bPaginate = False,
            bLengthChange = False,
            bFilter = False,
            bSort = True,
            bInfo = False,
            bAutoWidth = False,
            sDom = ''<"table-wrapper"t>'',
            bRetrieve = True,
            asSorting = True,
            bServerSide = False,
            bSearchable = True,
            aaSorting = [],
            iDisplayLength = 50,
            bStateSave = True,
            oLanguage = None,
            aoColumns = None\<rparr>;
          optionTable =
            (if hasClass d this ''tools-js''
             then optionTable\<lparr>
                    bPaginate := True,
                    bLengthChange := True,
                    bInfo := True,
                    bFilter := True,
                    oLanguage := Some
                      [(''sSearch'', ''''),
                       (''sLengthMenu'',
                        ''Entries per page<select>'' @
                        ''<option value="10">10</option>'' @
                        ''<option value="25">25</option>'' @
                        ''<option value="50">50</option>'' @
                        ''<option value="100">100</option>'' @
                        ''<option value="-1">All</option>'' @
                        ''</select>'')],
                    sDom := ''<"top"flip><"table-wrapper"t><"bottom"pi>''\<rparr>
             else optionTable);
          optionTable =
            (if hasClass d this ''input-js''
             then optionTable\<lparr>
                    bFilter := True,
                    oLanguage := Some [(''sSearch'', '''')],
                    sDom := ''<"top"flip><"table-wrapper"t><"bottom"pi>''\<rparr>
             else optionTable);
          colList =
            foldl (\<lambda>colList th.
                     if \<not> hasClass d th ''no-tablesorter-js''
                     then colList @ [None]
                     else colList @ [Some \<lparr>bSortable = False\<rparr>])
                  colList (select_thead_th d this)
      in optionTable\<lparr>aoColumns := Some colList\<rparr>)\<close>

subsection \<open>The external code\<close>

text \<open>
  The plug-in and the helper are parameters: each is a function on the document and on a
  state of its own (\<open>'x\<close>: the plug-in's settings, saved state and so on).
  \<^verbatim>\<open>dataTable\<close> returns the object the script stores in \<^verbatim>\<open>oTable\<close> (\<open>'h\<close>). Every call the
  script makes is also recorded, in order. The external code does not reach the handlers
  that the script binds, nor the record of the calls.
\<close>

record ('h, 'x) externals =
  dataTable :: "ref \<Rightarrow> optionTable \<Rightarrow> 'x \<times> document \<Rightarrow> 'h \<times> 'x \<times> document"
  fnFilter :: "'h \<Rightarrow> string \<Rightarrow> 'x \<times> document \<Rightarrow> 'x \<times> document"
  codeBaseBranchOverview :: "'x \<times> document \<Rightarrow> 'x \<times> document"

datatype 'h call =
    DataTableCall ref optionTable
  | CodeBaseBranchOverviewCall
  | FnFilterCall 'h string

text \<open>
  The page: the document, the external code's state, \<^verbatim>\<open>window.location.search\<close>, the
  keydown handlers the script has bound (the element, and the \<^verbatim>\<open>oTable\<close> its closure
  holds), and the calls made so far.
\<close>

record ('h, 'x) page =
  doc :: document
  ext :: 'x
  location_search :: string
  keydownHandlers :: "(ref \<times> 'h) list"
  calls :: "'h call list"

subsection \<open>The script\<close>

text \<open>
  Lines 14 to 90 of the callback of \<^verbatim>\<open>tablesorterEl.each\<close>: build the configuration,
  instantiate the widget on \<open>this\<close>, select the filter inputs, and call the helper on the
  builders page. The result is \<^verbatim>\<open>oTable\<close>, \<^verbatim>\<open>filterTableInput\<close> and the page.
\<close>

definition instantiate ::
  "('h, 'x) externals \<Rightarrow> ref \<Rightarrow> ('h, 'x) page \<Rightarrow> 'h \<times> ref list \<times> ('h, 'x) page" where
  "instantiate L this s =
     (let optionTable = build_optionTable (doc s) this;
          (oTable, x1, d1) = dataTable L this optionTable (ext s, doc s);
          s1 = s\<lparr>doc := d1, ext := x1,
                 calls := calls s @ [DataTableCall this optionTable]\<rparr>;
          filterTableInput = select_filter_input (doc s1);
          s2 = (if select_id (doc s1) ''builders_page'' \<noteq> [] \<and> location_search s1 \<noteq> ''''
                then (let (x2, d2) = codeBaseBranchOverview L (ext s1, doc s1)
                      in s1\<lparr>doc := d2, ext := x2,
                            calls := calls s1 @ [CodeBaseBranchOverviewCall]\<rparr>)
                else s1)
      in (oTable, filterTableInput, s2))"

text \<open>
  Lines 93 to 95:
  \<^verbatim>\<open>filterTableInput.attr('placeholder','Filter results').focus().keydown(function ...)\<close>.
\<close>

definition wire_filter_input ::
  "'h \<times> ref list \<times> ('h, 'x) page \<Rightarrow> ('h, 'x) page" where
  "wire_filter_input a =
     (case a of (oTable, filterTableInput, s) \<Rightarrow>
        s\<lparr>doc := focus (attr (doc s) filterTableInput ''placeholder'' ''Filter results'')
                    filterTableInput,
          keydownHandlers := keydownHandlers s @ map (\<lambda>i. (i, oTable)) filterTableInput\<rparr>)"

text \<open>The callback of \<^verbatim>\<open>tablesorterEl.each\<close> (lines 13 to 97), for one element.\<close>

definition each_body :: "('h, 'x) externals \<Rightarrow> ref \<Rightarrow> ('h, 'x) page \<Rightarrow> ('h, 'x) page" where
  "each_body L this s = wire_filter_input (instantiate L this s)"

text \<open>\<^verbatim>\<open>sel.each(f)\<close>: the callback on every element of the selection, in order.\<close>

definition each :: "('h, 'x) externals \<Rightarrow> ref list \<Rightarrow> ('h, 'x) page \<Rightarrow> ('h, 'x) page" where
  "each L sel s = foldl (\<lambda>s' this. each_body L this s') s sel"

text \<open>
  \<^verbatim>\<open>dataTables.init\<close> (lines 7 to 98). The selection is made once, on the document as
  \<^verbatim>\<open>init\<close> finds it.
\<close>

definition init :: "('h, 'x) externals \<Rightarrow> ('h, 'x) page \<Rightarrow> ('h, 'x) page" where
  "init L s = (let tablesorterEl = select_class (doc s) ''tablesorter-js'' in each L tablesorterEl s)"

text \<open>
  The handler bound in line 93, with \<open>this\<close> the input it is bound to:
  \<^verbatim>\<open>oTable.fnFilter($(this).val())\<close>.
\<close>

definition keydown_handler ::
  "('h, 'x) externals \<Rightarrow> 'h \<Rightarrow> ref \<Rightarrow> ('h, 'x) page \<Rightarrow> ('h, 'x) page" where
  "keydown_handler L oTable this s =
     (let v = val (elem (doc s) this);
          (x', d') = fnFilter L oTable v (ext s, doc s)
      in s\<lparr>doc := d', ext := x', calls := calls s @ [FnFilterCall oTable v]\<rparr>)"

text \<open>
  A keydown event on an element runs the handlers bound to that element, in the order in
  which they were bound, each on the page that the one before it left. (Handlers bound to
  the ancestors of the element would run after these; the script binds its handlers to
  \<^verbatim>\<open>input\<close> elements.)
\<close>

definition bound_to :: "('h, 'x) page \<Rightarrow> ref \<Rightarrow> 'h list" where
  "bound_to s target = map snd (filter (\<lambda>b. fst b = target) (keydownHandlers s))"

definition run_handlers ::
  "('h, 'x) externals \<Rightarrow> ref \<Rightarrow> 'h list \<Rightarrow> ('h, 'x) page \<Rightarrow> ('h, 'x) page" where
  "run_handlers L target hs s = foldl (\<lambda>s' oTable. keydown_handler L oTable target s') s hs"

definition trigger_keydown :: "('h, 'x) externals \<Rightarrow> ref \<Rightarrow> ('h, 'x) page \<Rightarrow> ('h, 'x) page" where
  "trigger_keydown L target s = run_handlers L target (bound_to s target) s"

text \<open>The widget instantiations among a list of calls: the element and the configuration.\<close>

fun widget_calls :: "'h call list \<Rightarrow> (ref \<times> optionTable) list" where
  "widget_calls [] = []"
| "widget_calls (DataTableCall r c # cs) = (r, c) # widget_calls cs"
| "widget_calls (_ # cs) = widget_calls cs"

subsection \<open>Notions used in the statements\<close>

text \<open>The text of a length menu that offers the given options, each a value and a label.\<close>

definition length_menu :: "(string \<times> string) list \<Rightarrow> string" where
  \<open>length_menu opts =
     ''Entries per page<select>'' @
     concat (map (\<lambda>(v, l). ''<option value="'' @ v @ ''">'' @ l @ ''</option>'') opts) @
     ''</select>''\<close>

text \<open>
  The rows of a table: the \<^verbatim>\<open>tr\<close> elements below it, each with everything below the
  row, in the order of the tree. The contents of the rows: every row with the state of
  each element in it, the row itself first. Since the script sets the attribute
  \<^verbatim>\<open>placeholder\<close>, the contents are also taken with that attribute left out.
\<close>

definition rows :: "document \<Rightarrow> ref \<Rightarrow> node list" where
  "rows d table =
     (case node_of d table of
        None \<Rightarrow> []
      | Some n \<Rightarrow>
          filter (\<lambda>k. tagName (elem d (ref k)) = ''tr'') (concat (map subtrees (childNodes n))))"

definition row_contents :: "document \<Rightarrow> ref \<Rightarrow> (node \<times> element list) list" where
  "row_contents d table = map (\<lambda>k. (k, map (\<lambda>n. elem d (ref n)) (subtrees k))) (rows d table)"

definition without_placeholder :: "element \<Rightarrow> element" where
  "without_placeholder e = e\<lparr>attrs := AList.delete ''placeholder'' (attrs e)\<rparr>"

definition row_contents_but_placeholder ::
  "document \<Rightarrow> ref \<Rightarrow> (node \<times> element list) list" where
  "row_contents_but_placeholder d table =
     map (\<lambda>k. (k, map (\<lambda>n. without_placeholder (elem d (ref n))) (subtrees k))) (rows d table)"

text \<open>
  Taking an element out of the document (\<^verbatim>\<open>$(el).detach()\<close>): its tree leaves the
  document and stays with the element.
\<close>

fun remove_node :: "ref \<Rightarrow> node \<Rightarrow> node" where
  "remove_node r (Node q ks) = Node q (map (remove_node r) (filter (\<lambda>k. ref k \<noteq> r) ks))"

definition detach :: "ref \<Rightarrow> document \<Rightarrow> document" where
  "detach r d =
     (case find (\<lambda>n. ref n = r) (subtrees (root d)) of
        None \<Rightarrow> d
      | Some n \<Rightarrow> d\<lparr>root := remove_node r (root d), detached := detached d @ [n]\<rparr>)"

text \<open>Typing into an input field changes its value.\<close>

definition type_into :: "ref \<Rightarrow> string \<Rightarrow> ('h, 'x) page \<Rightarrow> ('h, 'x) page" where
  "type_into i v s = s\<lparr>doc := (doc s)\<lparr>elem := (elem (doc s))(i := (elem (doc s) i)\<lparr>val := v\<rparr>)\<rparr>\<rparr>"

subsection \<open>A sample page\<close>

text \<open>
  A page to run the script on: a table with tools (1) whose header has a sortable and an
  unsortable column, a filter input that is in the page from the start (6), a table with
  a filter only (7) that has one row (14), a plain table (10), a table with both classes
  (11), and the builders-page element (12).
\<close>

definition el :: "string \<Rightarrow> string \<Rightarrow> string list \<Rightarrow> element" where
  "el t i cs =
     \<lparr>tagName = t, ident = i, classes = cs, attrs = [], val = '''',
      disabled = False, hidden = False\<rparr>"

definition sample_root :: node where
  "sample_root =
     Node 0 [Node 1 [Node 2 [Node 3 [], Node 4 []]],
             Node 5 [Node 6 []],
             Node 7 [Node 8 [Node 9 []], Node 13 [Node 14 [Node 15 []]]],
             Node 10 [],
             Node 11 [],
             Node 12 []]"

definition sample_elem :: "ref \<Rightarrow> element" where
  "sample_elem r =
     (case map_of
        [(0, el ''body'' '''' []),
         (1, el ''table'' '''' [''tablesorter-js'', ''tools-js'']),
         (2, el ''thead'' '''' []),
         (3, el ''th'' '''' []),
         (4, el ''th'' '''' [''no-tablesorter-js'']),
         (5, el ''div'' '''' [''dataTables_filter'']),
         (6, el ''input'' '''' []),
         (7, el ''table'' '''' [''tablesorter-js'', ''input-js'']),
         (8, el ''thead'' '''' []),
         (9, el ''th'' '''' []),
         (10, el ''table'' '''' [''tablesorter-js'']),
         (11, el ''table'' '''' [''tablesorter-js'', ''tools-js'', ''input-js'']),
         (12, el ''div'' ''builders_page'' []),
         (13, el ''tbody'' '''' []),
         (14, el ''tr'' '''' []),
         (15, el ''td'' '''' [])] r of
        Some e \<Rightarrow> e
      | None \<Rightarrow> el '''' '''' [])"

definition sample_document :: document where
  "sample_document =
     \<lparr>root = sample_root, detached = [], elem = sample_elem, activeElement = None\<rparr>"

text \<open>
  A stand-in for the plug-in, for running the script on the sample page: when filtering
  is enabled it appends a \<^verbatim>\<open>div.dataTables_filter\<close> holding a new \<^verbatim>\<open>input\<close> to the
  document, and it returns the table as \<^verbatim>\<open>oTable\<close>. The other two calls leave the page
  as it is.
\<close>

definition sample_dataTable ::
  "ref \<Rightarrow> optionTable \<Rightarrow> unit \<times> document \<Rightarrow> ref \<times> unit \<times> document" where
  "sample_dataTable this cfg xd =
     (case xd of (x, d) \<Rightarrow>
        if bFilter cfg
        then (this, x,
              d\<lparr>root := Node (ref (root d))
                           (childNodes (root d) @ [Node (100 + this) [Node (200 + this) []]]),
                elem := (elem d)(100 + this := el ''div'' '''' [''dataTables_filter''],
                                 200 + this := el ''input'' '''' [])\<rparr>)
        else (this, x, d))"

definition sample_externals :: "(ref, unit) externals" where
  "sample_externals =
     \<lparr>dataTable = sample_dataTable, fnFilter = (\<lambda>h v xd. xd),
      codeBaseBranchOverview = (\<lambda>xd. xd)\<rparr>"

definition sample_page :: "(ref, unit) page" where
  "sample_page =
     \<lparr>doc = sample_document, ext = (), location_search = ''?branch=main'',
      keydownHandlers = [], calls = []\<rparr>"


text \<open>External code that returns the table as \<^verbatim>\<open>oTable\<close> and leaves the page as it is.\<close>

definition quiet_externals :: "(ref, unit) externals" where
  "quiet_externals =
     \<lparr>dataTable = (\<lambda>this cfg xd. (this, xd)), fnFilter = (\<lambda>h v xd. xd),
      codeBaseBranchOverview = (\<lambda>xd. xd)\<rparr>"

text \<open>
  External code whose widget call takes table 7 out of the document, and external code
  whose helper takes row 14 out of the document while the two calls of the plug-in leave
  the page as it is.
\<close>

definition detaching_externals :: "(ref, unit) externals" where
  "detaching_externals =
     \<lparr>dataTable = (\<lambda>this cfg xd. (this, fst xd, detach 7 (snd xd))),
      fnFilter = (\<lambda>h v xd. xd),
      codeBaseBranchOverview = (\<lambda>xd. xd)\<rparr>"

definition helper_externals :: "(ref, unit) externals" where
  "helper_externals =
     \<lparr>dataTable = (\<lambda>this cfg xd. (this, xd)), fnFilter = (\<lambda>h v xd. xd),
      codeBaseBranchOverview = (\<lambda>xd. (fst xd, detach 14 (snd xd)))\<rparr>"

text \<open>
  A builders page with one selected table (7) that has one row (14).
\<close>

definition builders_table_page :: "(ref, unit) page" where
  "builders_table_page =
     \<lparr>doc = \<lparr>root = Node 0 [Node 7 [Node 13 [Node 14 [Node 15 []]]], Node 12 []],
             detached = [],
             elem = (\<lambda>r. if r = 7 then el ''table'' '''' [''tablesorter-js'']
                         else if r = 13 then el ''tbody'' '''' []
                         else if r = 14 then el ''tr'' '''' []
                         else if r = 15 then el ''td'' '''' []
                         else if r = 12 then el ''div'' ''builders_page'' []
                         else el ''body'' '''' []),
             activeElement = None\<rparr>,
      ext = (), location_search = ''?branch=main'', keydownHandlers = [], calls = []\<rparr>"

text \<open>
  A page with one selected table (1) whose only row (3) holds a filter input (5), and a
  page with one selected table (1) and two filter inputs, the last of which (16) is
  disabled.
\<close>

definition row_input_page :: "(ref, unit) page" where
  "row_input_page =
     \<lparr>doc = \<lparr>root = Node 0 [Node 1 [Node 2 [Node 3 [Node 4 [Node 5 []]]]]], detached = [],
             elem = (\<lambda>r. if r = 1 then el ''table'' '''' [''tablesorter-js'']
                         else if r = 2 then el ''tbody'' '''' []
                         else if r = 3 then el ''tr'' '''' []
                         else if r = 4 then el ''td'' '''' [''dataTables_filter'']
                         else if r = 5 then el ''input'' '''' []
                         else el ''body'' '''' []),
             activeElement = None\<rparr>,
      ext = (), location_search = '''', keydownHandlers = [], calls = []\<rparr>"

definition disabled_page :: "(ref, unit) page" where
  "disabled_page =
     \<lparr>doc = \<lparr>root = Node 0 [Node 1 [], Node 5 [Node 6 [], Node 16 []]], detached = [],
             elem = (\<lambda>r. if r = 1 then el ''table'' '''' [''tablesorter-js'']
                         else if r = 5 then el ''div'' '''' [''dataTables_filter'']
                         else if r = 6 then el ''input'' '''' []
                         else if r = 16 then (el ''input'' '''' [])\<lparr>disabled := True\<rparr>
                         else el ''body'' '''' []),
             activeElement = None\<rparr>,
      ext = (), location_search = '''', keydownHandlers = [], calls = []\<rparr>"

section \<open>Properties of the script\<close>

subsection \<open>Auxiliary facts\<close>

lemma widget_calls_append: "widget_calls (xs @ ys) = widget_calls xs @ widget_calls ys"
  by (induction xs rule: widget_calls.induct) simp_all

lemma instantiate_widget_calls:
  "widget_calls (calls (snd (snd (instantiate L this s)))) =
     widget_calls (calls s) @ [(this, build_optionTable (doc s) this)]"
  by (simp add: instantiate_def Let_def widget_calls_append split: prod.split)

lemma wire_calls: "calls (wire_filter_input (h, sel, s)) = calls s"
  by (simp add: wire_filter_input_def)

lemma each_body_widget_calls:
  "widget_calls (calls (each_body L this s)) =
     widget_calls (calls s) @ [(this, build_optionTable (doc s) this)]"
proof -
  obtain h sel s2 where i: "instantiate L this s = (h, sel, s2)"
    by (cases "instantiate L this s") auto
  from instantiate_widget_calls [of L this s] i show ?thesis
    by (simp add: each_body_def wire_calls)
qed

lemma push_columns:
  "foldl (\<lambda>colList th. if \<not> P th then colList @ [None] else colList @ [Some c]) acc ths =
     acc @ map (\<lambda>th. if P th then Some c else None) ths"
  by (induction ths arbitrary: acc) simp_all

lemma aoColumns_build:
  "aoColumns (build_optionTable d this) =
     Some (map (\<lambda>th. if hasClass d th ''no-tablesorter-js'' then Some \<lparr>bSortable = False\<rparr> else None)
            (select_thead_th d this))"
  by (simp add: build_optionTable_def Let_def push_columns)

lemma each_Nil: "each L [] s = s"
  by (simp add: each_def)

lemma each_Cons: "each L (t # ts) s = each L ts (each_body L t s)"
  by (simp add: each_def)

lemma each_append: "each L (a @ b) s = each L b (each L a s)"
  by (simp add: each_def)

lemma each_widget_targets:
  "map fst (widget_calls (calls (each L sel s))) = map fst (widget_calls (calls s)) @ sel"
  by (induction sel arbitrary: s) (simp_all add: each_Nil each_Cons each_body_widget_calls)

lemma instantiate_handlers:
  "instantiate L this s = (h, sel, s2) \<Longrightarrow> keydownHandlers s2 = keydownHandlers s"
  by (auto simp: instantiate_def Let_def split: prod.splits if_splits)

lemma instantiate_selection:
  assumes "instantiate L this s = (h, sel, s2)"
    and "dataTable L this (build_optionTable (doc s) this) (ext s, doc s) = (h', x1, d1)"
  shows "h = h' \<and> sel = select_filter_input d1"
  using assms by (auto simp: instantiate_def Let_def split: prod.splits if_splits)

lemma wire_handlers:
  "keydownHandlers (wire_filter_input (h, sel, s)) = keydownHandlers s @ map (\<lambda>i. (i, h)) sel"
  by (simp add: wire_filter_input_def)

lemma each_body_handlers:
  "instantiate L this s = (h, sel, s2) \<Longrightarrow>
   keydownHandlers (each_body L this s) = keydownHandlers s @ map (\<lambda>i. (i, h)) sel"
  by (simp add: each_body_def wire_handlers instantiate_handlers)

lemma each_body_handlers_mono:
  "set (keydownHandlers s) \<subseteq> set (keydownHandlers (each_body L this s))"
proof -
  obtain h sel s2 where "instantiate L this s = (h, sel, s2)"
    by (cases "instantiate L this s") auto
  then show ?thesis by (simp add: each_body_handlers)
qed

lemma each_handlers_mono:
  "set (keydownHandlers s) \<subseteq> set (keydownHandlers (each L sel s))"
proof (induction sel arbitrary: s)
  case Nil
  show ?case by (simp add: each_Nil)
next
  case (Cons t ts)
  have "set (keydownHandlers s) \<subseteq> set (keydownHandlers (each_body L t s))"
    by (rule each_body_handlers_mono)
  also have "\<dots> \<subseteq> set (keydownHandlers (each L ts (each_body L t s)))"
    by (rule Cons.IH)
  finally show ?case by (simp add: each_Cons)
qed

lemma wired_after_each:
  assumes "sel = before @ this # after"
    and "instantiate L this (each L before s) = (oTable, filterTableInput, s2)"
    and "i \<in> set filterTableInput"
  shows "(i, oTable) \<in> set (keydownHandlers (each L sel s))"
proof -
  have "(i, oTable) \<in> set (keydownHandlers (each_body L this (each L before s)))"
    using assms(2,3) by (simp add: each_body_handlers)
  moreover have "each L sel s = each L after (each_body L this (each L before s))"
    using assms(1) by (simp add: each_append each_Cons)
  ultimately show ?thesis
    using each_handlers_mono [of "each_body L this (each L before s)" L after] by auto
qed

lemma focus_snoc:
  "focus d (sel @ [r]) =
     (if focusable (focus d sel) r then (focus d sel)\<lparr>activeElement := Some r\<rparr> else focus d sel)"
  by (simp add: focus_def)

lemma focus_elem: "elem (focus d sel) = elem d"
  by (induction sel rule: rev_induct) (simp_all add: focus_snoc, simp add: focus_def)

lemma focus_root: "root (focus d sel) = root d"
  by (induction sel rule: rev_induct) (simp_all add: focus_snoc, simp add: focus_def)

lemma focus_detached: "detached (focus d sel) = detached d"
  by (induction sel rule: rev_induct) (simp_all add: focus_snoc, simp add: focus_def)

lemma focusable_focus: "focusable (focus d sel) r = focusable d r"
  by (simp add: focusable_def elements_def focus_elem focus_root)

lemma focus_active:
  "activeElement (focus d sel) =
     (if filter (focusable d) sel = [] then activeElement d
      else Some (last (filter (focusable d) sel)))"
proof (induction sel rule: rev_induct)
  case Nil
  show ?case by (simp add: focus_def)
next
  case (snoc r sel)
  then show ?case
    by (simp add: focus_snoc focusable_focus)
qed

text \<open>The same in one step, which is also how \<open>focus\<close> is evaluated.\<close>

lemma focus_code [code]:
  "focus d sel =
     (case filter (focusable d) sel of
        [] \<Rightarrow> d
      | f # fs \<Rightarrow> d\<lparr>activeElement := Some (last (f # fs))\<rparr>)"
proof -
  have "root (focus d sel) = root d" "detached (focus d sel) = detached d"
    "elem (focus d sel) = elem d"
    by (simp_all add: focus_root focus_detached focus_elem)
  moreover have "activeElement (focus d sel) =
      (case filter (focusable d) sel of
         [] \<Rightarrow> activeElement d
       | f # fs \<Rightarrow> Some (last (f # fs)))"
    by (simp add: focus_active split: list.split)
  ultimately show ?thesis
    by (cases "focus d sel"; cases d) (auto split: list.split)
qed

lemma focusable_attr: "focusable (attr d sel k v) r = focusable d r"
  by (simp add: focusable_def elements_def attr_def)

lemma wire_doc:
  "doc (wire_filter_input (h, sel, s)) =
     focus (attr (doc s) sel ''placeholder'' ''Filter results'') sel"
  by (simp add: wire_filter_input_def)

lemma wire_root: "root (doc (wire_filter_input (h, sel, s))) = root (doc s)"
  by (simp add: wire_doc focus_root attr_def)

lemma wire_detached: "detached (doc (wire_filter_input (h, sel, s))) = detached (doc s)"
  by (simp add: wire_doc focus_detached attr_def)

lemma wire_elem:
  "elem (doc (wire_filter_input (h, sel, s))) r =
     (if r \<in> set sel
      then (elem (doc s) r)\<lparr>attrs := AList.update ''placeholder'' ''Filter results'' (attrs (elem (doc s) r))\<rparr>
      else elem (doc s) r)"
  by (simp add: wire_doc focus_elem attr_def)

lemma wire_active:
  "activeElement (doc (wire_filter_input (h, sel, s))) =
     (if filter (focusable (doc s)) sel = [] then activeElement (doc s)
      else Some (last (filter (focusable (doc s)) sel)))"
proof -
  have "focusable (attr (doc s) sel ''placeholder'' ''Filter results'') = focusable (doc s)"
    by (rule ext) (rule focusable_attr)
  then show ?thesis
    by (simp add: wire_doc focus_active attr_def)
qed

lemma keydown_handler_calls:
  "calls (keydown_handler L h i s) = calls s @ [FnFilterCall h (val (elem (doc s) i))]"
  by (simp add: keydown_handler_def Let_def split: prod.split)

lemma run_handlers_append:
  "run_handlers L i (a @ b) s = run_handlers L i b (run_handlers L i a s)"
  by (simp add: run_handlers_def)

lemma run_handlers_Cons:
  "run_handlers L i (h # hs) s = run_handlers L i hs (keydown_handler L h i s)"
  by (simp add: run_handlers_def)

lemma run_handlers_calls_mono:
  "set (calls s) \<subseteq> set (calls (run_handlers L i hs s))"
proof (induction hs arbitrary: s)
  case Nil
  show ?case by (simp add: run_handlers_def)
next
  case (Cons h hs)
  have "set (calls s) \<subseteq> set (calls (keydown_handler L h i s))"
    by (auto simp: keydown_handler_calls)
  also have "\<dots> \<subseteq> set (calls (run_handlers L i hs (keydown_handler L h i s)))"
    by (rule Cons.IH)
  finally show ?case by (simp add: run_handlers_Cons)
qed

lemma run_handlers_pinned:
  assumes "h \<in> set hs"
  shows "FnFilterCall h (val (elem (doc (run_handlers L i (takeWhile (\<lambda>h'. h' \<noteq> h) hs) s)) i))
           \<in> set (calls (run_handlers L i hs s))"
proof -
  let ?pre = "takeWhile (\<lambda>h'. h' \<noteq> h) hs"
  let ?s1 = "run_handlers L i ?pre s"
  let ?rest = "dropWhile (\<lambda>h'. h' \<noteq> h) hs"
  from assms have ne: "?rest \<noteq> []"
    by (auto simp: dropWhile_eq_Nil_conv)
  then have "\<not> (hd ?rest \<noteq> h)"
    by (rule hd_dropWhile)
  with ne have "?rest = h # tl ?rest"
    by (cases ?rest) simp_all
  then have "?pre @ h # tl ?rest = hs"
    using takeWhile_dropWhile_id [of "\<lambda>h'. h' \<noteq> h" hs] by simp
  then obtain post where split: "hs = ?pre @ h # post"
    by metis
  have "FnFilterCall h (val (elem (doc ?s1) i)) \<in> set (calls (keydown_handler L h i ?s1))"
    by (simp add: keydown_handler_calls)
  then have "FnFilterCall h (val (elem (doc ?s1) i))
               \<in> set (calls (run_handlers L i post (keydown_handler L h i ?s1)))"
    using run_handlers_calls_mono by blast
  moreover have "run_handlers L i hs s = run_handlers L i post (keydown_handler L h i ?s1)"
    using split run_handlers_append [of L i ?pre "h # post" s]
    by (simp add: run_handlers_Cons)
  ultimately show ?thesis by simp
qed

lemma bound_to_iff: "h \<in> set (bound_to s i) \<longleftrightarrow> (i, h) \<in> set (keydownHandlers s)"
  by (force simp: bound_to_def)


subsection \<open>The selections\<close>

lemma subseq_concat_map:
  "(\<And>k. k \<in> set ks \<Longrightarrow> subseq (g k) (h k)) \<Longrightarrow>
   subseq (concat (map g ks)) (concat (map h ks))"
  by (induction ks) (simp_all add: list_emb_append_mono)

lemma subseq_member_concat:
  "k \<in> set ks \<Longrightarrow> subseq (h k) (concat (map h ks))"
  by (induction ks) (auto intro: subseq_drop_many subseq_rev_drop_many)

lemma subtrees_subseq:
  "n \<in> set (subtrees m) \<Longrightarrow> subseq (subtrees n) (subtrees m)"
proof (induction m rule: subtrees.induct)
  case (1 r ks)
  show ?case
  proof (cases "n = Node r ks")
    case True
    then show ?thesis by simp
  next
    case False
    with "1.prems" obtain k where k: "k \<in> set ks" "n \<in> set (subtrees k)"
      by auto
    from "1.IH" [OF k] have "subseq (subtrees n) (subtrees k)" .
    also have "subseq (subtrees k) (concat (map subtrees ks))"
      using k(1) by (rule subseq_member_concat)
    finally show ?thesis
      by (simp add: list_emb_Cons)
  qed
qed

lemma find_append:
  "find P (xs @ ys) = (case find P xs of None \<Rightarrow> find P ys | Some x \<Rightarrow> Some x)"
  by (induction xs) simp_all

lemma node_of_Some: "node_of d r = Some n \<Longrightarrow> n \<in> set (nodes d) \<and> ref n = r"
  by (auto simp: node_of_def find_Some_iff)

lemma node_of_in_document:
  assumes "r \<in> set (elements d)"
  shows "\<exists>n. node_of d r = Some n \<and> n \<in> set (subtrees (root d))"
proof -
  from assms have "find (\<lambda>n. ref n = r) (subtrees (root d)) \<noteq> None"
    by (auto simp: elements_def find_None_iff)
  then obtain n where n: "find (\<lambda>n. ref n = r) (subtrees (root d)) = Some n"
    by auto
  then have "n \<in> set (subtrees (root d))"
    by (auto simp: find_Some_iff)
  moreover from n have "node_of d r = Some n"
    by (simp add: node_of_def nodes_def find_append)
  ultimately show ?thesis by blast
qed

lemma subtrees_subseq_nodes:
  assumes "n \<in> set (nodes d)"
  shows "subseq (subtrees n) (nodes d)"
proof -
  from assms obtain t where t: "t \<in> set (root d # detached d)" "n \<in> set (subtrees t)"
    by (auto simp: nodes_def)
  have "subseq (subtrees n) (subtrees t)"
    using t(2) by (rule subtrees_subseq)
  also have "subseq (subtrees t) (concat (map subtrees (root d # detached d)))"
    using t(1) by (rule subseq_member_concat)
  finally show ?thesis
    by (simp add: nodes_def)
qed

lemma select_thead_th_below:
  assumes "node_of d this = Some n"
  shows "subseq (select_thead_th d this) (map ref (subtrees n))"
proof -
  let ?g = "\<lambda>k. if tagName (elem d (ref k)) = ''thead''
                then filter (\<lambda>r. tagName (elem d r) = ''th'') (descendants k) else []"
  have "subseq (?g k) (map ref (subtrees k))" for k
  proof -
    have "subseq (descendants k) (map ref (subtrees k))"
      by (cases k) (simp add: descendants_def list_emb_Cons)
    moreover have "subseq (?g k) (descendants k)"
      by simp
    ultimately show ?thesis
      using subseq_order.order_trans by blast
  qed
  then have "subseq (concat (map ?g (childNodes n)))
               (concat (map (\<lambda>k. map ref (subtrees k)) (childNodes n)))"
    by (intro subseq_concat_map)
  also have "concat (map (\<lambda>k. map ref (subtrees k)) (childNodes n)) =
               map ref (concat (map subtrees (childNodes n)))"
    by (simp add: map_concat comp_def)
  also have "subseq \<dots> (map ref (subtrees n))"
    by (cases n) (simp add: list_emb_Cons)
  finally show ?thesis
    using assms by (simp add: select_thead_th_def)
qed

lemma select_thead_th_order:
  "subseq (select_thead_th d this) (map ref (nodes d))"
proof (cases "node_of d this")
  case None
  then show ?thesis by (simp add: select_thead_th_def)
next
  case (Some n)
  have "subseq (select_thead_th d this) (map ref (subtrees n))"
    using Some by (rule select_thead_th_below)
  also have "subseq (map ref (subtrees n)) (map ref (nodes d))"
    using node_of_Some [OF Some] by (intro subseq_map subtrees_subseq_nodes) simp
  finally show ?thesis .
qed

lemma select_thead_th_document_order:
  assumes "this \<in> set (elements d)"
  shows "subseq (select_thead_th d this) (elements d)"
proof -
  from node_of_in_document [OF assms] obtain n where
    n: "node_of d this = Some n" "n \<in> set (subtrees (root d))"
    by blast
  have "subseq (select_thead_th d this) (map ref (subtrees n))"
    using n(1) by (rule select_thead_th_below)
  also have "subseq (map ref (subtrees n)) (map ref (subtrees (root d)))"
    using subtrees_subseq [OF n(2)] by (rule subseq_map)
  finally show ?thesis
    by (simp add: elements_def)
qed

lemma select_thead_th_distinct:
  assumes "distinct (map ref (nodes d))"
  shows "distinct (select_thead_th d this)"
  using select_thead_th_order [of d this] assms
  by (auto intro: subseqs_distinctD simp flip: in_set_subseqs)

lemma select_thead_th_iff:
  "th \<in> set (select_thead_th d this) \<longleftrightarrow>
     (\<exists>n k. node_of d this = Some n \<and> k \<in> set (childNodes n) \<and>
            tagName (elem d (ref k)) = ''thead'' \<and>
            th \<in> set (descendants k) \<and> tagName (elem d th) = ''th'')"
  by (cases "node_of d this") (auto simp: select_thead_th_def split: if_splits)

lemma subtrees_trans:
  "a \<in> set (subtrees n) \<Longrightarrow> set (subtrees a) \<subseteq> set (subtrees n)"
  using subtrees_subseq [of a n] by (auto dest: list_emb_set)

lemma descendants_subtrees: "set (descendants n) \<subseteq> ref ` set (subtrees n)"
  by (cases n) (auto simp: descendants_def)

lemma descendants_mono:
  assumes "a \<in> set (subtrees n)"
  shows "set (descendants a) \<subseteq> set (descendants n)"
proof (cases n)
  case (Node r ks)
  show ?thesis
  proof (cases "a = n")
    case True
    then show ?thesis by simp
  next
    case False
    with assms Node obtain k where k: "k \<in> set ks" "a \<in> set (subtrees k)"
      by auto
    have "set (descendants a) \<subseteq> ref ` set (subtrees a)"
      by (rule descendants_subtrees)
    also have "\<dots> \<subseteq> ref ` set (subtrees k)"
      using subtrees_trans [OF k(2)] by blast
    also have "\<dots> \<subseteq> set (descendants n)"
      using k(1) Node by (auto simp: descendants_def)
    finally show ?thesis .
  qed
qed

lemma below_inside: "below A B True n = filter B (map ref (subtrees n))"
  by (induction n rule: subtrees.induct)
     (simp add: filter_concat map_concat comp_def cong: map_cong)

lemma set_below_outside:
  "set (below A B False n) =
     {x. B x \<and> (\<exists>a \<in> set (subtrees n). A (ref a) \<and> x \<in> set (descendants a))}"
proof (induction n rule: subtrees.induct)
  case (1 r ks)
  show ?case
  proof (cases "A r")
    case True
    have "set (below A B False (Node r ks)) = {x \<in> set (descendants (Node r ks)). B x}"
      using True by (auto simp: below_inside descendants_def)
    also have "\<dots> = {x. B x \<and> (\<exists>a \<in> set (subtrees (Node r ks)).
                          A (ref a) \<and> x \<in> set (descendants a))}"
    proof -
      have self: "Node r ks \<in> set (subtrees (Node r ks))" "A (ref (Node r ks))"
        using True by simp_all
      have mono: "x \<in> set (descendants (Node r ks))"
        if "a \<in> set (subtrees (Node r ks))" "x \<in> set (descendants a)" for a x
        using descendants_mono [OF that(1)] that(2) by blast
      show ?thesis
      proof (intro set_eqI iffI)
        fix x
        assume "x \<in> {x \<in> set (descendants (Node r ks)). B x}"
        then have "B x" "x \<in> set (descendants (Node r ks))"
          by simp_all
        with self
        show "x \<in> {x. B x \<and> (\<exists>a \<in> set (subtrees (Node r ks)).
                                A (ref a) \<and> x \<in> set (descendants a))}"
          by blast
      next
        fix x
        assume "x \<in> {x. B x \<and> (\<exists>a \<in> set (subtrees (Node r ks)).
                                A (ref a) \<and> x \<in> set (descendants a))}"
        then obtain a where "B x" "a \<in> set (subtrees (Node r ks))" "x \<in> set (descendants a)"
          by blast
        with mono show "x \<in> {x \<in> set (descendants (Node r ks)). B x}"
          by blast
      qed
    qed
    finally show ?thesis .
  next
    case False
    have "set (below A B False (Node r ks)) =
            (\<Union>k \<in> set ks. {x. B x \<and> (\<exists>a \<in> set (subtrees k).
                                   A (ref a) \<and> x \<in> set (descendants a))})"
      using False by (simp add: "1.IH")
    also have "\<dots> = {x. B x \<and> (\<exists>a \<in> set (subtrees (Node r ks)).
                          A (ref a) \<and> x \<in> set (descendants a))}"
      using False by auto
    finally show ?thesis .
  qed
qed

lemma select_filter_input_iff:
  "i \<in> set (select_filter_input d) \<longleftrightarrow>
     tagName (elem d i) = ''input'' \<and>
     (\<exists>a \<in> set (subtrees (root d)).
        hasClass d (ref a) ''dataTables_filter'' \<and> i \<in> set (descendants a))"
  by (simp add: select_filter_input_def set_below_outside)


subsection \<open>The configuration passed to the widget\<close>

lemma each_widget_calls_mono:
  "set (widget_calls (calls s)) \<subseteq> set (widget_calls (calls (each L sel s)))"
proof (induction sel arbitrary: s)
  case Nil
  show ?case by (simp add: each_Nil)
next
  case (Cons t ts)
  have "set (widget_calls (calls s)) \<subseteq> set (widget_calls (calls (each_body L t s)))"
    by (auto simp: each_body_widget_calls)
  also have "\<dots> \<subseteq> set (widget_calls (calls (each L ts (each_body L t s))))"
    by (rule Cons.IH)
  finally show ?case by (simp add: each_Cons)
qed

lemma init_widget_call:
  assumes "select_class (doc s) ''tablesorter-js'' = before @ this # after"
  shows "(this, build_optionTable (doc (each L before s)) this)
           \<in> set (widget_calls (calls (init L s)))"
proof -
  have "(this, build_optionTable (doc (each L before s)) this)
          \<in> set (widget_calls (calls (each_body L this (each L before s))))"
    by (simp add: each_body_widget_calls)
  then have "(this, build_optionTable (doc (each L before s)) this)
          \<in> set (widget_calls (calls (each L after (each_body L this (each L before s)))))"
    using each_widget_calls_mono by blast
  then show ?thesis
    by (simp add: init_def assms each_append each_Cons)
qed

text \<open>
  Claim C2. For the table \<open>this\<close> that the callback processes, the widget is instantiated
  once, with the configuration built from the page as the callback finds it, and the
  \<^verbatim>\<open>aoColumns\<close> list of that configuration has one entry for every header cell selected by
  \<^verbatim>\<open>'> thead th'\<close> in the table, in the order of the selection: the entry is
  \<^verbatim>\<open>{bSortable: false}\<close> when the header cell has the class \<^verbatim>\<open>no-tablesorter-js\<close>, and
  \<^verbatim>\<open>null\<close> when it has not. The selected header cells are exactly the \<^verbatim>\<open>th\<close> elements
  that lie below a \<^verbatim>\<open>thead\<close> child of the table, found from the table itself (also when
  the table has been taken out of the document before its turn). They come in the order of
  the tree, which for a table in the document is the document order, and each cell comes
  once when no element occurs twice in the page. In a run of \<^verbatim>\<open>init\<close>, the page that the
  callback finds for a selected table is the one that the runs for the tables before it
  have left, and the configuration built from it is among the widget calls of \<^verbatim>\<open>init\<close>.
\<close>

theorem aoColumns_per_header_cell:
  "widget_calls (calls (each_body L this s)) =
     widget_calls (calls s) @ [(this, build_optionTable (doc s) this)]
   \<and> aoColumns (build_optionTable (doc s) this) =
       Some (map (\<lambda>th. if hasClass (doc s) th ''no-tablesorter-js''
                        then Some \<lparr>bSortable = False\<rparr> else None)
              (select_thead_th (doc s) this))
   \<and> map_option length (aoColumns (build_optionTable (doc s) this)) =
       Some (length (select_thead_th (doc s) this))
   \<and> (th \<in> set (select_thead_th (doc s) this) \<longleftrightarrow>
        (\<exists>n k. node_of (doc s) this = Some n \<and> k \<in> set (childNodes n) \<and>
               tagName (elem (doc s) (ref k)) = ''thead'' \<and>
               th \<in> set (descendants k) \<and> tagName (elem (doc s) th) = ''th''))
   \<and> subseq (select_thead_th (doc s) this) (map ref (nodes (doc s)))
   \<and> (this \<in> set (elements (doc s)) \<longrightarrow>
        subseq (select_thead_th (doc s) this) (elements (doc s)))
   \<and> (distinct (map ref (nodes (doc s))) \<longrightarrow> distinct (select_thead_th (doc s) this))
   \<and> (select_class (doc s0) ''tablesorter-js'' = before @ this # after \<longrightarrow>
        (this, build_optionTable (doc (each L before s0)) this)
          \<in> set (widget_calls (calls (init L s0))))"
  using select_thead_th_iff [of th "doc s" this]
  by (simp add: each_body_widget_calls aoColumns_build select_thead_th_order
        select_thead_th_document_order select_thead_th_distinct init_widget_call)

theorem aoColumns_per_header_cell_witness:
  "10 \<in> set (elements (doc sample_page))
   \<and> distinct (map ref (nodes (doc sample_page)))
   \<and> select_thead_th (doc sample_page) 10 = []
   \<and> aoColumns (build_optionTable (doc sample_page) 10) = Some []
   \<and> select_thead_th (doc sample_page) 7 = [9]
   \<and> aoColumns (build_optionTable (doc sample_page) 7) = Some [None]
   \<and> select_thead_th (doc sample_page) 1 = [3, 4]
   \<and> subseq [3, 4] (elements (doc sample_page))
   \<and> aoColumns (build_optionTable (doc sample_page) 1) = Some [None, Some \<lparr>bSortable = False\<rparr>]
   \<and> widget_calls (calls (each_body sample_externals 1 sample_page)) =
       [(1, build_optionTable (doc sample_page) 1)]
   \<and> 7 \<notin> set (elements (doc (each detaching_externals [1] sample_page)))
   \<and> node_of (doc (each detaching_externals [1] sample_page)) 7 =
       Some (Node 7 [Node 8 [Node 9 []], Node 13 [Node 14 [Node 15 []]]])
   \<and> select_thead_th (doc (each detaching_externals [1] sample_page)) 7 = [9]
   \<and> aoColumns (build_optionTable (doc (each detaching_externals [1] sample_page)) 7) =
       Some [None]
   \<and> select_class (doc sample_page) ''tablesorter-js'' = [1] @ 7 # [10, 11]
   \<and> (7, build_optionTable (doc (each detaching_externals [1] sample_page)) 7)
       \<in> set (widget_calls (calls (init detaching_externals sample_page)))"
proof -
  let ?d = "doc sample_page"
  let ?s7 = "each detaching_externals [1] sample_page"
  have in1: "1 \<in> set (elements ?d)" and in10: "10 \<in> set (elements ?d)"
    and dist: "distinct (map ref (nodes ?d))"
    by code_simp+
  have s10: "select_thead_th ?d 10 = []" and s7: "select_thead_th ?d 7 = [9]"
    and s1: "select_thead_th ?d 1 = [3, 4]"
    by code_simp+
  have c: "\<not> hasClass ?d 3 ''no-tablesorter-js''" "hasClass ?d 4 ''no-tablesorter-js''"
    "\<not> hasClass ?d 9 ''no-tablesorter-js''" "calls sample_page = []"
    by code_simp+
  have out: "7 \<notin> set (elements (doc ?s7))"
    and n7: "node_of (doc ?s7) 7 =
      Some (Node 7 [Node 8 [Node 9 []], Node 13 [Node 14 [Node 15 []]]])"
    and d7: "select_thead_th (doc ?s7) 7 = [9]"
    and c7: "\<not> hasClass (doc ?s7) 9 ''no-tablesorter-js''"
    by code_simp+
  have sel: "select_class (doc sample_page) ''tablesorter-js'' = [1] @ 7 # [10, 11]"
    by code_simp
  note t10 = aoColumns_per_header_cell [of sample_externals 10 sample_page 3, unfolded s10]
  note t7 = aoColumns_per_header_cell [of sample_externals 7 sample_page 9, unfolded s7]
  note t1 = aoColumns_per_header_cell [of sample_externals 1 sample_page 3, unfolded s1]
  note u7 = aoColumns_per_header_cell [of detaching_externals 7 ?s7 9 sample_page "[1]"
      "[10, 11]", unfolded d7]
  have "aoColumns (build_optionTable ?d 10) = Some []"
    using t10 by simp
  moreover have "aoColumns (build_optionTable ?d 7) = Some [None]"
    using t7 c by simp
  moreover have "aoColumns (build_optionTable ?d 1) = Some [None, Some \<lparr>bSortable = False\<rparr>]"
    and "subseq [3, 4] (elements ?d)"
    and "widget_calls (calls (each_body sample_externals 1 sample_page)) =
       [(1, build_optionTable ?d 1)]"
    using t1 c in1 by simp_all
  moreover have "aoColumns (build_optionTable (doc ?s7) 7) = Some [None]"
    using u7 c7 by simp
  moreover have "(7, build_optionTable (doc ?s7) 7)
      \<in> set (widget_calls (calls (init detaching_externals sample_page)))"
    using u7 sel by blast
  ultimately show ?thesis
    using in10 dist s10 s7 s1 out n7 d7 sel by (intro conjI) simp_all
qed

text \<open>
  Claim C4. A table with neither the class \<^verbatim>\<open>tools-js\<close> nor the class \<^verbatim>\<open>input-js\<close> is
  given a configuration with pagination, length change, filtering and info switched off,
  sorting switched on with no initial order, a display length of 50, and state saving
  switched on.
\<close>

theorem plain_table_configuration:
  assumes "cfg = build_optionTable (doc s) this"
    and "\<not> hasClass (doc s) this ''tools-js''"
    and "\<not> hasClass (doc s) this ''input-js''"
  shows "widget_calls (calls (each_body L this s)) = widget_calls (calls s) @ [(this, cfg)]
    \<and> bPaginate cfg = False \<and> bLengthChange cfg = False \<and> bFilter cfg = False
    \<and> bInfo cfg = False \<and> bSort cfg = True \<and> aaSorting cfg = []
    \<and> iDisplayLength cfg = 50 \<and> bStateSave cfg = True"
  using assms by (simp add: each_body_widget_calls build_optionTable_def Let_def)

theorem plain_table_configuration_witness:
  "\<not> hasClass (doc sample_page) 10 ''tools-js''
   \<and> \<not> hasClass (doc sample_page) 10 ''input-js''
   \<and> widget_calls (calls (each_body sample_externals 10 sample_page)) =
       [(10, build_optionTable sample_document 10)]
   \<and> bPaginate (build_optionTable sample_document 10) = False
   \<and> bLengthChange (build_optionTable sample_document 10) = False
   \<and> bFilter (build_optionTable sample_document 10) = False
   \<and> bInfo (build_optionTable sample_document 10) = False
   \<and> bSort (build_optionTable sample_document 10) = True
   \<and> aaSorting (build_optionTable sample_document 10) = []
   \<and> iDisplayLength (build_optionTable sample_document 10) = 50
   \<and> bStateSave (build_optionTable sample_document 10) = True"
proof -
  have d: "doc sample_page = sample_document" "calls sample_page = []"
    by (simp_all add: sample_page_def)
  have c: "classes (sample_elem 10) = [''tablesorter-js'']"
    by (simp add: sample_elem_def el_def)
  have h1: "\<not> hasClass (doc sample_page) 10 ''tools-js''"
    and h2: "\<not> hasClass (doc sample_page) 10 ''input-js''"
    by (simp_all add: d hasClass_def sample_document_def c)
  from plain_table_configuration [OF refl h1 h2, of sample_externals] h1 h2
  show ?thesis by (simp add: d)
qed

text \<open>
  Claim C5, as amended. A table with the class \<^verbatim>\<open>tools-js\<close> is given a configuration
  with pagination, length change, info and filtering switched on. When the table does not
  also have the class \<^verbatim>\<open>input-js\<close>, the language strings of the configuration are an
  empty search label and a length menu that offers exactly the options 10, 25, 50, 100
  and All (with the value -1).
\<close>

theorem tools_table_configuration:
  assumes "cfg = build_optionTable (doc s) this"
    and "hasClass (doc s) this ''tools-js''"
  shows "widget_calls (calls (each_body L this s)) = widget_calls (calls s) @ [(this, cfg)]
    \<and> bPaginate cfg = True \<and> bLengthChange cfg = True \<and> bInfo cfg = True
    \<and> bFilter cfg = True
    \<and> (\<not> hasClass (doc s) this ''input-js'' \<longrightarrow>
         oLanguage cfg =
           Some [(''sSearch'', ''''),
                 (''sLengthMenu'',
                  length_menu [(''10'', ''10''), (''25'', ''25''), (''50'', ''50''),
                               (''100'', ''100''), (''-1'', ''All'')])])"
  using assms
  by (simp add: each_body_widget_calls build_optionTable_def Let_def length_menu_def)

theorem tools_table_configuration_witness:
  "hasClass (doc sample_page) 1 ''tools-js''
   \<and> \<not> hasClass (doc sample_page) 1 ''input-js''
   \<and> widget_calls (calls (each_body sample_externals 1 sample_page)) =
       [(1, build_optionTable sample_document 1)]
   \<and> bPaginate (build_optionTable sample_document 1) = True
   \<and> bLengthChange (build_optionTable sample_document 1) = True
   \<and> bInfo (build_optionTable sample_document 1) = True
   \<and> bFilter (build_optionTable sample_document 1) = True
   \<and> oLanguage (build_optionTable sample_document 1) =
       Some [(''sSearch'', ''''),
             (''sLengthMenu'',
              length_menu [(''10'', ''10''), (''25'', ''25''), (''50'', ''50''),
                           (''100'', ''100''), (''-1'', ''All'')])]"
proof -
  have d: "doc sample_page = sample_document" "calls sample_page = []"
    by (simp_all add: sample_page_def)
  have h1: "hasClass (doc sample_page) 1 ''tools-js''"
    and h2: "\<not> hasClass (doc sample_page) 1 ''input-js''"
    by (simp_all add: d hasClass_def sample_document_def sample_elem_def el_def)
  from tools_table_configuration [OF refl h1, of sample_externals] h1 h2
  show ?thesis by (simp add: d)
qed

text \<open>
  Claim C5 as stated fails on table 11 of the sample page, which has the classes
  \<^verbatim>\<open>tools-js\<close> and \<^verbatim>\<open>input-js\<close>: it is selected, and the language strings of its
  configuration hold the search label only, no length menu.
\<close>

theorem tools_length_menu_counterexample:
  "11 \<in> set (select_class sample_document ''tablesorter-js'')
   \<and> hasClass sample_document 11 ''tools-js''
   \<and> oLanguage (build_optionTable sample_document 11) = Some [(''sSearch'', '''')]
   \<and> map_of [(''sSearch'', '''')] ''sLengthMenu'' = (None :: string option)"
proof -
  have c: "classes (sample_elem 11) = [''tablesorter-js'', ''tools-js'', ''input-js'']"
    by (simp add: sample_elem_def el_def)
  have h: "hasClass sample_document 11 ''tablesorter-js''"
    "hasClass sample_document 11 ''tools-js''" "hasClass sample_document 11 ''input-js''"
    by (simp_all add: hasClass_def sample_document_def c)
  have "11 \<in> set (elements sample_document)"
    by (simp add: elements_def sample_document_def sample_root_def)
  with h show ?thesis
    by (simp add: select_class_def build_optionTable_def Let_def)
qed

text \<open>
  Claim C8. A table with both classes \<^verbatim>\<open>tools-js\<close> and \<^verbatim>\<open>input-js\<close> is given a
  configuration whose language strings are the empty search label alone (the length menu
  that the first branch assigned is replaced by the second), while length change stays
  switched on.
\<close>

theorem tools_and_input_configuration:
  assumes "cfg = build_optionTable (doc s) this"
    and "hasClass (doc s) this ''tools-js''"
    and "hasClass (doc s) this ''input-js''"
  shows "widget_calls (calls (each_body L this s)) = widget_calls (calls s) @ [(this, cfg)]
    \<and> oLanguage cfg = Some [(''sSearch'', '''')]
    \<and> bLengthChange cfg = True"
  using assms by (simp add: each_body_widget_calls build_optionTable_def Let_def)

theorem tools_and_input_configuration_witness:
  "hasClass (doc sample_page) 11 ''tools-js''
   \<and> hasClass (doc sample_page) 11 ''input-js''
   \<and> widget_calls (calls (each_body sample_externals 11 sample_page)) =
       [(11, build_optionTable sample_document 11)]
   \<and> oLanguage (build_optionTable sample_document 11) = Some [(''sSearch'', '''')]
   \<and> bLengthChange (build_optionTable sample_document 11) = True"
proof -
  have d: "doc sample_page = sample_document" "calls sample_page = []"
    by (simp_all add: sample_page_def)
  have c: "classes (sample_elem 11) = [''tablesorter-js'', ''tools-js'', ''input-js'']"
    by (simp add: sample_elem_def el_def)
  have h1: "hasClass (doc sample_page) 11 ''tools-js''"
    and h2: "hasClass (doc sample_page) 11 ''input-js''"
    by (simp_all add: d hasClass_def sample_document_def c)
  from tools_and_input_configuration [OF refl h1 h2, of sample_externals] h1 h2
  show ?thesis by (simp add: d)
qed

text \<open>
  Claim C9. A table with the class \<^verbatim>\<open>input-js\<close> and without the class \<^verbatim>\<open>tools-js\<close> is
  given a configuration with filtering switched on and pagination, length change and info
  switched off, although its layout string is the one of the tables with tools, which
  places the length menu (\<^verbatim>\<open>l\<close>), the info (\<^verbatim>\<open>i\<close>) and the pagination (\<^verbatim>\<open>p\<close>).
\<close>

theorem input_table_configuration:
  assumes "cfg = build_optionTable (doc s) this"
    and "hasClass (doc s) this ''input-js''"
    and "\<not> hasClass (doc s) this ''tools-js''"
  shows \<open>widget_calls (calls (each_body L this s)) = widget_calls (calls s) @ [(this, cfg)]
    \<and> bFilter cfg = True
    \<and> bPaginate cfg = False \<and> bLengthChange cfg = False \<and> bInfo cfg = False
    \<and> sDom cfg = ''<"top"flip><"table-wrapper"t><"bottom"pi>''\<close>
  using assms
  by (simp add: each_body_widget_calls build_optionTable_def Let_def)

theorem input_table_configuration_witness:
  \<open>hasClass (doc sample_page) 7 ''input-js''
   \<and> \<not> hasClass (doc sample_page) 7 ''tools-js''
   \<and> widget_calls (calls (each_body sample_externals 7 sample_page)) =
       [(7, build_optionTable sample_document 7)]
   \<and> bFilter (build_optionTable sample_document 7) = True
   \<and> bPaginate (build_optionTable sample_document 7) = False
   \<and> bLengthChange (build_optionTable sample_document 7) = False
   \<and> bInfo (build_optionTable sample_document 7) = False
   \<and> sDom (build_optionTable sample_document 7) =
       ''<"top"flip><"table-wrapper"t><"bottom"pi>''\<close>
proof -
  have d: "doc sample_page = sample_document" "calls sample_page = []"
    by (simp_all add: sample_page_def)
  have c: "classes (sample_elem 7) = [''tablesorter-js'', ''input-js'']"
    by (simp add: sample_elem_def el_def)
  have h1: "hasClass (doc sample_page) 7 ''input-js''"
    and h2: "\<not> hasClass (doc sample_page) 7 ''tools-js''"
    by (simp_all add: d hasClass_def sample_document_def c)
  from input_table_configuration [OF refl h1 h2, of sample_externals] h1 h2
  show ?thesis by (simp add: d)
qed


subsection \<open>Which elements the script works on\<close>

lemma instantiate_external:
  assumes "dataTable L this (build_optionTable (doc s) this) (ext s, doc s) = (oTable, x1, d1)"
    and "instantiate L this s = (oTable', filterTableInput, s2)"
  shows "(ext s2, doc s2) =
           (if select_id d1 ''builders_page'' \<noteq> [] \<and> location_search s \<noteq> ''''
            then codeBaseBranchOverview L (x1, d1) else (x1, d1))"
  using assms by (auto simp: instantiate_def Let_def split: prod.splits if_splits)

lemma instantiate_calls:
  assumes "dataTable L this (build_optionTable (doc s) this) (ext s, doc s) = (oTable, x1, d1)"
  shows "calls (each_body L this s) =
           calls s @ DataTableCall this (build_optionTable (doc s) this) #
           (if select_id d1 ''builders_page'' \<noteq> [] \<and> location_search s \<noteq> ''''
            then [CodeBaseBranchOverviewCall] else [])"
  using assms
  by (auto simp: each_body_def wire_filter_input_def instantiate_def Let_def split: prod.splits)


lemma each_body_root:
  "instantiate L this s = (oTable, filterTableInput, s2) \<Longrightarrow>
   root (doc (each_body L this s)) = root (doc s2)"
  by (simp add: each_body_def wire_root)

lemma each_body_elem:
  "instantiate L this s = (oTable, filterTableInput, s2) \<Longrightarrow>
   elem (doc (each_body L this s)) r =
     (if r \<in> set filterTableInput
      then (elem (doc s2) r)\<lparr>attrs :=
             AList.update ''placeholder'' ''Filter results'' (attrs (elem (doc s2) r))\<rparr>
      else elem (doc s2) r)"
  by (simp add: each_body_def wire_elem)

lemma each_body_detached:
  "instantiate L this s = (oTable, filterTableInput, s2) \<Longrightarrow>
   detached (doc (each_body L this s)) = detached (doc s2)"
  by (simp add: each_body_def wire_detached)

lemma rows_cong:
  assumes "root d' = root d" and "detached d' = detached d"
    and "\<And>r. tagName (elem d' r) = tagName (elem d r)"
  shows "rows d' table = rows d table"
  using assms by (simp add: rows_def node_of_def nodes_def split: option.split)

text \<open>
  Claim C1, as amended. \<^verbatim>\<open>init\<close> instantiates the widget on exactly the elements of the
  document that have the class \<^verbatim>\<open>tablesorter-js\<close> when \<^verbatim>\<open>init\<close> starts, once each and in
  document order, and on no other element. The script itself does write to elements
  without that class: in every run of the callback, the elements matching
  \<^verbatim>\<open>.dataTables_filter input\<close> once the widget is instantiated are given a placeholder, the
  focus and a keydown handler. Every other element is, at the end of the callback, as the
  external calls of that run left it.
\<close>

theorem widget_on_tablesorter_elements:
  assumes "dataTable L this (build_optionTable (doc s') this) (ext s', doc s') = (oTable, x1, d1)"
    and "instantiate L this s' = (oTable', filterTableInput, s2)"
    and "r \<notin> set (select_filter_input d1)"
  shows "map fst (widget_calls (calls (init L s))) =
           map fst (widget_calls (calls s)) @
           filter (\<lambda>e. hasClass (doc s) e ''tablesorter-js'') (elements (doc s))
       \<and> elem (doc (each_body L this s')) r = elem (doc s2) r"
proof -
  have "filterTableInput = select_filter_input d1"
    using instantiate_selection [OF assms(2,1)] by simp
  with assms(3) have "elem (doc (each_body L this s')) r = elem (doc s2) r"
    by (simp add: each_body_elem [OF assms(2)])
  then show ?thesis
    by (simp add: init_def each_widget_targets select_class_def)
qed

theorem widget_on_tablesorter_elements_witness:
  "3 \<notin> set (select_filter_input
       (snd (snd (dataTable sample_externals 1 (build_optionTable (doc sample_page) 1)
          (ext sample_page, doc sample_page)))))
   \<and> map fst (widget_calls (calls (init sample_externals sample_page))) = [1, 7, 10, 11]
   \<and> elem (doc (each_body sample_externals 1 sample_page)) 3 = sample_elem 3"
proof -
  let ?R = "dataTable sample_externals 1 (build_optionTable (doc sample_page) 1)
              (ext sample_page, doc sample_page)"
  let ?I = "instantiate sample_externals 1 sample_page"
  have h1: "?R = (fst ?R, fst (snd ?R), snd (snd ?R))"
    by (simp only: prod.collapse)
  have h2: "?I = (fst ?I, fst (snd ?I), snd (snd ?I))"
    by (simp only: prod.collapse)
  have h3: "3 \<notin> set (select_filter_input (snd (snd ?R)))"
    by code_simp
  have e: "filter (\<lambda>e. hasClass (doc sample_page) e ''tablesorter-js'')
             (elements (doc sample_page)) = [1, 7, 10, 11]"
    by code_simp
  have c: "calls sample_page = []"
    by (simp add: sample_page_def)
  have v: "elem (doc (snd (snd ?I))) 3 = sample_elem 3"
    by (simp add: instantiate_def Let_def sample_externals_def sample_dataTable_def
          sample_page_def sample_document_def split: prod.split)
  from widget_on_tablesorter_elements [OF h1 h2 h3, of sample_page] h3 e c v
  show ?thesis by simp
qed

text \<open>
  Claim C1 as stated fails on the sample page: element 6, the filter input that is in the
  page from the start, does not have the class \<^verbatim>\<open>tablesorter-js\<close>, and \<^verbatim>\<open>init\<close> changes
  its attributes.
\<close>

theorem filter_input_touched_counterexample:
  "6 \<in> set (elements (doc sample_page))
   \<and> \<not> hasClass (doc sample_page) 6 ''tablesorter-js''
   \<and> attrs (elem (doc sample_page) 6) = []
   \<and> attrs (elem (doc (init sample_externals sample_page)) 6) =
       [(''placeholder'', ''Filter results'')]"
  by code_simp





subsection \<open>What the script itself changes\<close>

lemma without_placeholder_update:
  "without_placeholder (e\<lparr>attrs := AList.update ''placeholder'' v (attrs e)\<rparr>) =
     without_placeholder e"
  by (simp add: without_placeholder_def delete_update_same)

lemma each_body_without_placeholder:
  "instantiate L this s = (oTable, filterTableInput, s2) \<Longrightarrow>
   without_placeholder (elem (doc (each_body L this s)) r) = without_placeholder (elem (doc s2) r)"
  by (simp add: each_body_elem without_placeholder_update)

lemma each_body_rows_wired:
  assumes "instantiate L this s = (oTable, filterTableInput, s2)"
  shows "rows (doc (each_body L this s)) table = rows (doc s2) table"
  by (rule rows_cong)
     (simp_all add: each_body_root [OF assms] each_body_detached [OF assms]
        each_body_elem [OF assms])

lemma each_body_contents_wired:
  assumes "instantiate L this s = (oTable, filterTableInput, s2)"
  shows "row_contents_but_placeholder (doc (each_body L this s)) table =
           row_contents_but_placeholder (doc s2) table"
  by (simp add: row_contents_but_placeholder_def each_body_rows_wired [OF assms]
        each_body_without_placeholder [OF assms])

lemma each_body_contents:
  assumes dt: "\<forall>t c x d. row_contents_but_placeholder (snd (snd (dataTable L t c (x, d)))) table =
      row_contents_but_placeholder d table"
    and hp: "\<forall>x d. row_contents_but_placeholder (snd (codeBaseBranchOverview L (x, d))) table =
      row_contents_but_placeholder d table"
  shows "row_contents_but_placeholder (doc (each_body L this s)) table =
           row_contents_but_placeholder (doc s) table"
proof -
  obtain oTable x1 d1 where
    r: "dataTable L this (build_optionTable (doc s) this) (ext s, doc s) = (oTable, x1, d1)"
    by (cases "dataTable L this (build_optionTable (doc s) this) (ext s, doc s)") auto
  obtain h sel s2 where i: "instantiate L this s = (h, sel, s2)"
    by (cases "instantiate L this s") auto
  have "row_contents_but_placeholder d1 table = row_contents_but_placeholder (doc s) table"
    using dt [rule_format, of this "build_optionTable (doc s) this" "ext s" "doc s"] r
    by simp
  moreover have "row_contents_but_placeholder (doc s2) table =
      row_contents_but_placeholder d1 table"
  proof (cases "select_id d1 ''builders_page'' \<noteq> [] \<and> location_search s \<noteq> ''''")
    case True
    with instantiate_external [OF r i]
    have "doc s2 = snd (codeBaseBranchOverview L (x1, d1))"
      by (metis snd_conv)
    then show ?thesis
      using hp by simp
  next
    case False
    with instantiate_external [OF r i] have "doc s2 = d1"
      by auto
    then show ?thesis by simp
  qed
  ultimately show ?thesis
    by (simp add: each_body_contents_wired [OF i])
qed

lemma each_contents:
  assumes "\<forall>t c x d. row_contents_but_placeholder (snd (snd (dataTable L t c (x, d)))) table =
      row_contents_but_placeholder d table"
    and "\<forall>x d. row_contents_but_placeholder (snd (codeBaseBranchOverview L (x, d))) table =
      row_contents_but_placeholder d table"
  shows "row_contents_but_placeholder (doc (each L sel s)) table =
           row_contents_but_placeholder (doc s) table"
  by (induction sel arbitrary: s)
     (simp_all add: each_Nil each_Cons each_body_contents [OF assms])

lemma each_body_contents_full:
  assumes i: "instantiate L this s = (oTable, filterTableInput, s2)"
    and out: "\<forall>k \<in> set (rows (doc s2) table). \<forall>n \<in> set (subtrees k).
               ref n \<notin> set filterTableInput"
  shows "row_contents (doc (each_body L this s)) table = row_contents (doc s2) table"
  using out
  by (auto simp: row_contents_def each_body_rows_wired [OF i] each_body_elem [OF i])

lemma keydown_handler_external:
  "(ext (keydown_handler L h i s), doc (keydown_handler L h i s)) =
     fnFilter L h (val (elem (doc s) i)) (ext s, doc s)"
  by (simp add: keydown_handler_def Let_def split: prod.split)

text \<open>
  Claim C7, as amended. The script does no sorting, pagination or filtering of its own, but
  it does write to the page, and it makes three external calls, not two.
  \<^item> Whatever \<^verbatim>\<open>init\<close> changes in the rows of a table, apart from \<^verbatim>\<open>placeholder\<close>
    attributes, is the work of the external calls it makes, \<^verbatim>\<open>dataTable\<close> and
    \<^verbatim>\<open>helpers.codeBaseBranchOverview\<close>: if these leave the contents of the rows of a table
    as they are, the contents after \<^verbatim>\<open>init\<close> are the contents before it (the same \<^verbatim>\<open>tr\<close>
    elements, in the same order, with the same elements below them, in the same state).
  \<^item> In every run of the callback, between the page that the external calls return and
    the page at the end, the trees are the same, and so are the rows; the tag name, id,
    classes, value and the disabled and hidden state of every element and every attribute
    but \<^verbatim>\<open>placeholder\<close> are the same; an element that is not one of the selected filter
    inputs is the same altogether; and the contents of the rows of a table are the same
    altogether when none of the selected filter inputs lies in a row of it.
  \<^item> The keydown handler changes the page through \<^verbatim>\<open>fnFilter\<close> only.
\<close>

theorem script_writes_placeholder_only:
  "((\<forall>t c x d. row_contents_but_placeholder (snd (snd (dataTable L t c (x, d)))) table =
        row_contents_but_placeholder d table)
      \<and> (\<forall>x d. row_contents_but_placeholder (snd (codeBaseBranchOverview L (x, d))) table =
        row_contents_but_placeholder d table)
      \<longrightarrow> row_contents_but_placeholder (doc (init L s)) table =
            row_contents_but_placeholder (doc s) table)
   \<and> (instantiate L this s' = (oTable, filterTableInput, s2) \<longrightarrow>
        root (doc (each_body L this s')) = root (doc s2)
        \<and> detached (doc (each_body L this s')) = detached (doc s2)
        \<and> rows (doc (each_body L this s')) table = rows (doc s2) table
        \<and> row_contents_but_placeholder (doc (each_body L this s')) table =
            row_contents_but_placeholder (doc s2) table
        \<and> tagName (elem (doc (each_body L this s')) r) = tagName (elem (doc s2) r)
        \<and> ident (elem (doc (each_body L this s')) r) = ident (elem (doc s2) r)
        \<and> classes (elem (doc (each_body L this s')) r) = classes (elem (doc s2) r)
        \<and> val (elem (doc (each_body L this s')) r) = val (elem (doc s2) r)
        \<and> disabled (elem (doc (each_body L this s')) r) = disabled (elem (doc s2) r)
        \<and> hidden (elem (doc (each_body L this s')) r) = hidden (elem (doc s2) r)
        \<and> (k \<noteq> ''placeholder'' \<longrightarrow>
             map_of (attrs (elem (doc (each_body L this s')) r)) k =
             map_of (attrs (elem (doc s2) r)) k)
        \<and> (r \<notin> set filterTableInput \<longrightarrow>
             elem (doc (each_body L this s')) r = elem (doc s2) r)
        \<and> ((\<forall>k \<in> set (rows (doc s2) table). \<forall>n \<in> set (subtrees k).
               ref n \<notin> set filterTableInput) \<longrightarrow>
             row_contents (doc (each_body L this s')) table = row_contents (doc s2) table))
   \<and> (ext (keydown_handler L h i s''), doc (keydown_handler L h i s'')) =
       fnFilter L h (val (elem (doc s'') i)) (ext s'', doc s'')"
proof (intro conjI impI)
  assume "(\<forall>t c x d. row_contents_but_placeholder (snd (snd (dataTable L t c (x, d)))) table =
        row_contents_but_placeholder d table)
      \<and> (\<forall>x d. row_contents_but_placeholder (snd (codeBaseBranchOverview L (x, d))) table =
        row_contents_but_placeholder d table)"
  then show "row_contents_but_placeholder (doc (init L s)) table =
      row_contents_but_placeholder (doc s) table"
    by (simp add: init_def each_contents)
next
  assume i: "instantiate L this s' = (oTable, filterTableInput, s2)"
  show "rows (doc (each_body L this s')) table = rows (doc s2) table"
    by (rule each_body_rows_wired [OF i])
  show "row_contents_but_placeholder (doc (each_body L this s')) table =
      row_contents_but_placeholder (doc s2) table"
    by (rule each_body_contents_wired [OF i])
next
  assume i: "instantiate L this s' = (oTable, filterTableInput, s2)"
    and "\<forall>k \<in> set (rows (doc s2) table). \<forall>n \<in> set (subtrees k). ref n \<notin> set filterTableInput"
  then show "row_contents (doc (each_body L this s')) table = row_contents (doc s2) table"
    by (rule each_body_contents_full)
next
  show "(ext (keydown_handler L h i s''), doc (keydown_handler L h i s'')) =
       fnFilter L h (val (elem (doc s'') i)) (ext s'', doc s'')"
    by (rule keydown_handler_external)
qed (simp_all add: each_body_root each_body_detached each_body_elem update_conv')

theorem script_writes_placeholder_only_witness:
  "rows (doc sample_page) 7 = [Node 14 [Node 15 []]]
   \<and> row_contents_but_placeholder (doc (init quiet_externals sample_page)) 7 =
       [(Node 14 [Node 15 []], [el ''tr'' '''' [], el ''td'' '''' []])]
   \<and> fst (snd (instantiate quiet_externals 7 sample_page)) = [6]
   \<and> root (doc (each_body quiet_externals 7 sample_page)) = sample_root
   \<and> row_contents (doc (each_body quiet_externals 7 sample_page)) 7 =
       [(Node 14 [Node 15 []], [el ''tr'' '''' [], el ''td'' '''' []])]
   \<and> classes (elem (doc (each_body quiet_externals 7 sample_page)) 6) = []
   \<and> map_of (attrs (elem (doc (each_body quiet_externals 7 sample_page)) 6)) ''class'' = None
   \<and> elem (doc (each_body quiet_externals 7 sample_page)) 3 = sample_elem 3"
proof -
  let ?I = "instantiate quiet_externals 7 sample_page"
  have q: "\<forall>t c x d. row_contents_but_placeholder
             (snd (snd (dataTable quiet_externals t c (x, d)))) 7 =
           row_contents_but_placeholder d 7"
    "\<forall>x d. row_contents_but_placeholder
             (snd (codeBaseBranchOverview quiet_externals (x, d))) 7 =
           row_contents_but_placeholder d 7"
    by (simp_all add: quiet_externals_def)
  have d2: "doc (snd (snd ?I)) = sample_document"
    by (simp add: instantiate_def Let_def quiet_externals_def sample_page_def)
  have d0: "doc sample_page = sample_document"
    by (simp add: sample_page_def)
  have rw: "rows sample_document 7 = [Node 14 [Node 15 []]]"
    by code_simp
  have e: "sample_elem 14 = el ''tr'' '''' []" "sample_elem 15 = el ''td'' '''' []"
    "classes (sample_elem 6) = []" "attrs (sample_elem 6) = []"
    by (simp_all add: sample_elem_def el_def)
  have se: "elem sample_document = sample_elem"
    by (simp add: sample_document_def)
  have rc: "row_contents sample_document 7 =
      [(Node 14 [Node 15 []], [el ''tr'' '''' [], el ''td'' '''' []])]"
    unfolding row_contents_def rw se by (simp add: e)
  have rp: "row_contents_but_placeholder sample_document 7 =
      [(Node 14 [Node 15 []], [el ''tr'' '''' [], el ''td'' '''' []])]"
    unfolding row_contents_but_placeholder_def rw se
    by (simp add: e without_placeholder_def el_def)
  have h: "?I = (fst ?I, fst (snd ?I), snd (snd ?I))"
    by (simp only: prod.collapse)
  have sel: "fst (snd ?I) = [6]"
    by code_simp
  have out: "\<forall>k \<in> set (rows (doc (snd (snd ?I))) 7). \<forall>n \<in> set (subtrees k).
      ref n \<notin> set (fst (snd ?I))"
    by (simp add: d2 rw sel)
  have k: "''class'' \<noteq> ''placeholder''"
    by simp
  have n3: "3 \<notin> set (fst (snd ?I))" and n6: "6 \<in> set (fst (snd ?I))"
    by (simp_all add: sel)
  note t3 = script_writes_placeholder_only
    [of quiet_externals 7 sample_page 7 sample_page "fst ?I" "fst (snd ?I)" "snd (snd ?I)"
        3 "''class''" 7 6 sample_page]
  note t6 = script_writes_placeholder_only
    [of quiet_externals 7 sample_page 7 sample_page "fst ?I" "fst (snd ?I)" "snd (snd ?I)"
        6 "''class''" 7 6 sample_page]
  from t3 q have "row_contents_but_placeholder (doc (init quiet_externals sample_page)) 7 =
      row_contents_but_placeholder (doc sample_page) 7"
    by blast
  moreover from t3 h have "root (doc (each_body quiet_externals 7 sample_page)) =
      root (doc (snd (snd ?I)))"
    by blast
  moreover from t3 h out have "row_contents (doc (each_body quiet_externals 7 sample_page)) 7 =
      row_contents (doc (snd (snd ?I))) 7"
    by blast
  moreover from t3 h n3 have "elem (doc (each_body quiet_externals 7 sample_page)) 3 =
      elem (doc (snd (snd ?I))) 3"
    by blast
  moreover from t6 h have "classes (elem (doc (each_body quiet_externals 7 sample_page)) 6) =
      classes (elem (doc (snd (snd ?I))) 6)"
    by blast
  moreover from t6 h k
  have "map_of (attrs (elem (doc (each_body quiet_externals 7 sample_page)) 6)) ''class'' =
      map_of (attrs (elem (doc (snd (snd ?I))) 6)) ''class''"
    by blast
  ultimately show ?thesis
    using sel by (simp add: d2 d0 rw rc rp se e) (simp add: sample_document_def)
qed

text \<open>
  Claim C7 as stated fails in two ways. On a builders page with one table, with external
  code whose two plug-in calls leave the page as it is and whose helper takes row 14 out of
  the document, table 7 has its row before \<^verbatim>\<open>init\<close> and none after it: the helper is a
  third call that may affect the rows. And on a page where a filter input lies in the only row of the
  selected table, with external code that leaves the page as it is, \<^verbatim>\<open>init\<close> itself
  changes the contents of that row: the input gets the placeholder.
\<close>

theorem rows_changed_counterexample:
  "dataTable helper_externals = (\<lambda>this cfg xd. (this, xd))
   \<and> fnFilter helper_externals = (\<lambda>h v xd. xd)
   \<and> calls (init helper_externals builders_table_page) =
       [DataTableCall 7 (build_optionTable (doc builders_table_page) 7),
        CodeBaseBranchOverviewCall]
   \<and> rows (doc builders_table_page) 7 = [Node 14 [Node 15 []]]
   \<and> rows (doc (init helper_externals builders_table_page)) 7 = []
   \<and> rows (doc row_input_page) 1 = [Node 3 [Node 4 [Node 5 []]]]
   \<and> attrs (elem (doc row_input_page) 5) = []
   \<and> attrs (elem (doc (init quiet_externals row_input_page)) 5) =
       [(''placeholder'', ''Filter results'')]
   \<and> row_contents (doc (init quiet_externals row_input_page)) 1 \<noteq>
       row_contents (doc row_input_page) 1"
proof -
  have f: "dataTable helper_externals = (\<lambda>this cfg xd. (this, xd))"
    "fnFilter helper_externals = (\<lambda>h v xd. xd)"
    by (simp_all add: helper_externals_def)
  have r: "rows (doc builders_table_page) 7 = [Node 14 [Node 15 []]]"
    "rows (doc (init helper_externals builders_table_page)) 7 = []"
    by code_simp+
  have i: "init helper_externals builders_table_page =
      each_body helper_externals 7 builders_table_page"
    by (simp add: init_def each_def select_class_def elements_def hasClass_def
          builders_table_page_def el_def)
  have b: "select_id (doc builders_table_page) ''builders_page'' \<noteq> []"
    "location_search builders_table_page \<noteq> ''''" "calls builders_table_page = []"
    by (simp_all add: select_id_def elements_def builders_table_page_def el_def)
  have c: "calls (init helper_externals builders_table_page) =
       [DataTableCall 7 (build_optionTable (doc builders_table_page) 7),
        CodeBaseBranchOverviewCall]"
    unfolding i
    using b instantiate_calls [of helper_externals 7 builders_table_page 7 "()"
        "doc builders_table_page"]
    by (simp add: helper_externals_def builders_table_page_def)
  have p: "rows (doc row_input_page) 1 = [Node 3 [Node 4 [Node 5 []]]]"
    "rows (doc (init quiet_externals row_input_page)) 1 = [Node 3 [Node 4 [Node 5 []]]]"
    "attrs (elem (doc row_input_page) 5) = []"
    "attrs (elem (doc (init quiet_externals row_input_page)) 5) =
       [(''placeholder'', ''Filter results'')]"
    by code_simp+
  have "elem (doc (init quiet_externals row_input_page)) 5 \<noteq> elem (doc row_input_page) 5"
    using p(3,4) by auto
  then have "row_contents (doc (init quiet_externals row_input_page)) 1 \<noteq>
      row_contents (doc row_input_page) 1"
    unfolding row_contents_def p(1) p(2) by simp
  with f r p c show ?thesis
    by (intro conjI) simp_all
qed


subsection \<open>The filter inputs and their keydown handlers\<close>

lemma instantiate_of_dataTable:
  assumes "dataTable L this (build_optionTable (doc s) this) (ext s, doc s) = (oTable, x1, d1)"
  shows "\<exists>s2. instantiate L this s = (oTable, select_filter_input d1, s2)"
  using assms by (simp add: instantiate_def Let_def)

lemma wired_by_init:
  assumes "select_class (doc s) ''tablesorter-js'' = before @ this # after"
    and "dataTable L this (build_optionTable (doc (each L before s)) this)
           (ext (each L before s), doc (each L before s)) = (oTable, x1, d1)"
    and "input \<in> set (select_filter_input d1)"
  shows "(input, oTable) \<in> set (keydownHandlers (init L s))"
proof -
  from instantiate_of_dataTable [OF assms(2)] obtain s2 where
    "instantiate L this (each L before s) = (oTable, select_filter_input d1, s2)" ..
  from wired_after_each [OF assms(1) this assms(3)] show ?thesis
    by (simp add: init_def)
qed

lemma trigger_keydown_calls:
  assumes "(input, oTable) \<in> set (keydownHandlers s)"
  shows "\<exists>v. FnFilterCall oTable v \<in> set (calls (trigger_keydown L input s))"
  using run_handlers_pinned [of oTable "bound_to s input" L input s] assms
  by (auto simp: trigger_keydown_def bound_to_iff)

text \<open>
  Claim C3. Take a table \<open>this\<close> that \<^verbatim>\<open>init\<close> instantiates (the tables before it in
  the selection have been processed, giving the page \<open>s1\<close>), the \<^verbatim>\<open>oTable\<close> that the
  widget returns for it, and a filter input \<open>input\<close> that is in the document when the
  widget call returns. After \<^verbatim>\<open>init\<close>, on any page \<open>s'\<close> with the handlers that
  \<^verbatim>\<open>init\<close> has bound, the handler of \<open>oTable\<close> is bound to \<open>input\<close>, and a keydown event
  on \<open>input\<close> calls \<^verbatim>\<open>fnFilter\<close> of \<open>oTable\<close> with the value that the input field holds
  when that handler runs, that is, after the handlers bound to \<open>input\<close> before it have run.
\<close>

theorem keydown_invokes_fnFilter:
  assumes "select_class (doc s) ''tablesorter-js'' = before @ this # after"
    and "s1 = each L before s"
    and "dataTable L this (build_optionTable (doc s1) this) (ext s1, doc s1) = (oTable, x1, d1)"
    and "input \<in> set (select_filter_input d1)"
    and "keydownHandlers s' = keydownHandlers (init L s)"
  shows "oTable \<in> set (bound_to s' input)
       \<and> FnFilterCall oTable
           (val (elem (doc (run_handlers L input
                              (takeWhile (\<lambda>h. h \<noteq> oTable) (bound_to s' input)) s')) input))
           \<in> set (calls (trigger_keydown L input s'))"
proof -
  have "(input, oTable) \<in> set (keydownHandlers (init L s))"
    using assms(1) assms(3) [unfolded assms(2)] assms(4) by (rule wired_by_init)
  with assms(5) have b: "oTable \<in> set (bound_to s' input)"
    by (simp add: bound_to_iff)
  from run_handlers_pinned [OF b] b show ?thesis
    by (simp add: trigger_keydown_def)
qed

theorem keydown_invokes_fnFilter_witness:
  "select_class (doc sample_page) ''tablesorter-js'' = [1] @ 7 # [10, 11]
   \<and> 207 \<in> set (select_filter_input (snd (snd
        (dataTable sample_externals 7
           (build_optionTable (doc (each sample_externals [1] sample_page)) 7)
           (ext (each sample_externals [1] sample_page),
            doc (each sample_externals [1] sample_page))))))
   \<and> 7 \<in> set (bound_to (type_into 207 ''ab'' (init sample_externals sample_page)) 207)
   \<and> FnFilterCall 7 ''ab''
       \<in> set (calls (trigger_keydown sample_externals 207
                       (type_into 207 ''ab'' (init sample_externals sample_page))))"
proof -
  let ?s1 = "each sample_externals [1] sample_page"
  let ?R = "dataTable sample_externals 7 (build_optionTable (doc ?s1) 7) (ext ?s1, doc ?s1)"
  let ?s' = "type_into 207 ''ab'' (init sample_externals sample_page)"
  have a1: "select_class (doc sample_page) ''tablesorter-js'' = [1] @ 7 # [10, 11]"
    by code_simp
  have a3: "?R = (fst ?R, fst (snd ?R), snd (snd ?R))"
    by (simp only: prod.collapse)
  have a4: "207 \<in> set (select_filter_input (snd (snd ?R)))"
    by code_simp
  have a5: "keydownHandlers ?s' = keydownHandlers (init sample_externals sample_page)"
    by (simp add: type_into_def)
  have o: "fst ?R = 7"
    by code_simp
  have v: "val (elem (doc (run_handlers sample_externals 207
             (takeWhile (\<lambda>h. h \<noteq> 7) (bound_to ?s' 207)) ?s')) 207) = ''ab''"
    by code_simp
  from keydown_invokes_fnFilter [OF a1 refl a3 a4 a5]
  have "fst ?R \<in> set (bound_to ?s' 207)
       \<and> FnFilterCall (fst ?R)
           (val (elem (doc (run_handlers sample_externals 207
                              (takeWhile (\<lambda>h. h \<noteq> fst ?R) (bound_to ?s' 207)) ?s')) 207))
           \<in> set (calls (trigger_keydown sample_externals 207 ?s'))" .
  then have "7 \<in> set (bound_to ?s' 207)
       \<and> FnFilterCall 7 ''ab'' \<in> set (calls (trigger_keydown sample_externals 207 ?s'))"
    unfolding o v .
  with a1 a4 show ?thesis
    by (intro conjI) (rule a1, rule a4, simp_all)
qed

lemma each_body_wiring:
  assumes "dataTable L this (build_optionTable (doc s) this) (ext s, doc s) = (oTable, x1, d1)"
  shows "keydownHandlers (each_body L this s) =
           keydownHandlers s @ map (\<lambda>i. (i, oTable)) (select_filter_input d1)"
    and "i \<in> set (select_filter_input d1) \<Longrightarrow>
           map_of (attrs (elem (doc (each_body L this s)) i)) ''placeholder'' =
             Some ''Filter results''"
    and "activeElement (doc (each_body L this s)) =
           (if filter (focusable (doc (snd (snd (instantiate L this s)))))
                 (select_filter_input d1) = []
            then activeElement (doc (snd (snd (instantiate L this s))))
            else Some (last (filter (focusable (doc (snd (snd (instantiate L this s)))))
                              (select_filter_input d1))))"
proof -
  from instantiate_of_dataTable [OF assms] obtain s2 where
    i: "instantiate L this s = (oTable, select_filter_input d1, s2)" ..
  show "keydownHandlers (each_body L this s) =
          keydownHandlers s @ map (\<lambda>i. (i, oTable)) (select_filter_input d1)"
    by (rule each_body_handlers [OF i])
  show "i \<in> set (select_filter_input d1) \<Longrightarrow>
          map_of (attrs (elem (doc (each_body L this s)) i)) ''placeholder'' =
            Some ''Filter results''"
    by (simp add: each_body_elem [OF i] update_conv')
  show "activeElement (doc (each_body L this s)) =
          (if filter (focusable (doc (snd (snd (instantiate L this s)))))
                (select_filter_input d1) = []
           then activeElement (doc (snd (snd (instantiate L this s))))
           else Some (last (filter (focusable (doc (snd (snd (instantiate L this s)))))
                             (select_filter_input d1))))"
    by (simp add: each_body_def i wire_active)
qed

text \<open>
  Claim C10. In every run of the callback, the selection \<^verbatim>\<open>filterTableInput\<close> is made
  over the whole document as the widget call leaves it: it holds every \<^verbatim>\<open>input\<close> element
  that lies below an element with the class \<^verbatim>\<open>dataTables_filter\<close>, wherever that is
  in the tree. Every element of it gets the placeholder \<^verbatim>\<open>Filter results\<close> and a keydown
  handler that calls \<^verbatim>\<open>fnFilter\<close> of the table of that run, and \<^verbatim>\<open>focus\<close> is called on
  every element of it: the focus ends on the last of them that can take it (one that is
  disabled, not rendered or no longer in the document when the helper has returned cannot)
  and stays where it was when none of them can. Hence, for two selected tables
  \<open>t1\<close> before \<open>t2\<close>, and a filter input that is in the document when the widget call
  for \<open>t1\<close> returns and still when the widget call for \<open>t2\<close> returns: the handler for
  \<open>t1\<close> is already bound to the input when the callback runs for \<open>t2\<close>, both handlers
  are bound to it after \<^verbatim>\<open>init\<close>, and a keydown event on it calls \<^verbatim>\<open>fnFilter\<close> of both
  tables.
\<close>

theorem filter_inputs_wired_document_wide:
  assumes "select_class (doc s) ''tablesorter-js'' = before @ t1 # between @ t2 # after"
    and "s1 = each L before s"
    and "dataTable L t1 (build_optionTable (doc s1) t1) (ext s1, doc s1) = (oTable1, x1, d1)"
    and "s2 = each L (before @ t1 # between) s"
    and "dataTable L t2 (build_optionTable (doc s2) t2) (ext s2, doc s2) = (oTable2, x2, d2)"
    and "input \<in> set (select_filter_input d1)"
    and "input \<in> set (select_filter_input d2)"
    and "keydownHandlers s' = keydownHandlers (init L s)"
  shows "(dataTable L this (build_optionTable (doc sI) this) (ext sI, doc sI) = (oTable, xI, dI)
          \<longrightarrow> keydownHandlers (each_body L this sI) =
                keydownHandlers sI @ map (\<lambda>i. (i, oTable)) (select_filter_input dI)
              \<and> (\<forall>i \<in> set (select_filter_input dI).
                    map_of (attrs (elem (doc (each_body L this sI)) i)) ''placeholder'' =
                      Some ''Filter results'')
              \<and> activeElement (doc (each_body L this sI)) =
                  (if filter (focusable (doc (snd (snd (instantiate L this sI)))))
                        (select_filter_input dI) = []
                   then activeElement (doc (snd (snd (instantiate L this sI))))
                   else Some (last (filter (focusable (doc (snd (snd (instantiate L this sI)))))
                                     (select_filter_input dI)))))
       \<and> (e \<in> set (select_filter_input dI) \<longleftrightarrow>
            tagName (elem dI e) = ''input'' \<and>
            (\<exists>a \<in> set (subtrees (root dI)).
               hasClass dI (ref a) ''dataTables_filter'' \<and> e \<in> set (descendants a)))
       \<and> (input, oTable1) \<in> set (keydownHandlers s2)
       \<and> oTable1 \<in> set (bound_to s' input)
       \<and> oTable2 \<in> set (bound_to s' input)
       \<and> (\<exists>v. FnFilterCall oTable1 v \<in> set (calls (trigger_keydown L input s')))
       \<and> (\<exists>v. FnFilterCall oTable2 v \<in> set (calls (trigger_keydown L input s')))"
proof -
  have sel1: "select_class (doc s) ''tablesorter-js'' = before @ t1 # (between @ t2 # after)"
    and sel2: "select_class (doc s) ''tablesorter-js'' = (before @ t1 # between) @ t2 # after"
    using assms(1) by simp_all
  have w1: "(input, oTable1) \<in> set (keydownHandlers (init L s))"
    using sel1 assms(3) [unfolded assms(2)] assms(6) by (rule wired_by_init)
  have w2: "(input, oTable2) \<in> set (keydownHandlers (init L s))"
    using sel2 assms(5) [unfolded assms(4)] assms(7) by (rule wired_by_init)
  from instantiate_of_dataTable [OF assms(3) [unfolded assms(2)]] obtain sa where
    "instantiate L t1 (each L before s) = (oTable1, select_filter_input d1, sa)" ..
  from wired_after_each [OF refl this assms(6), of between]
  have early: "(input, oTable1) \<in> set (keydownHandlers s2)"
    by (simp add: assms(4))
  from w1 w2 assms(8) have b: "(input, oTable1) \<in> set (keydownHandlers s')"
    "(input, oTable2) \<in> set (keydownHandlers s')"
    by simp_all
  have "e \<in> set (select_filter_input dI) \<longleftrightarrow>
          tagName (elem dI e) = ''input'' \<and>
          (\<exists>a \<in> set (subtrees (root dI)).
             hasClass dI (ref a) ''dataTables_filter'' \<and> e \<in> set (descendants a))"
    by (rule select_filter_input_iff)
  moreover have "oTable1 \<in> set (bound_to s' input)" "oTable2 \<in> set (bound_to s' input)"
    using b by (simp_all add: bound_to_iff)
  ultimately show ?thesis
    using early trigger_keydown_calls [OF b(1), of L] trigger_keydown_calls [OF b(2), of L]
    by (simp add: each_body_wiring)
qed

theorem filter_inputs_wired_document_wide_witness:
  "select_class (doc sample_page) ''tablesorter-js'' = [] @ 1 # [] @ 7 # [10, 11]
   \<and> select_filter_input (snd (snd
        (dataTable sample_externals 1
           (build_optionTable (doc (each sample_externals [] sample_page)) 1)
           (ext (each sample_externals [] sample_page),
            doc (each sample_externals [] sample_page))))) = [6, 201]
   \<and> select_filter_input (snd (snd
        (dataTable sample_externals 7
           (build_optionTable (doc (each sample_externals ([] @ 1 # []) sample_page)) 7)
           (ext (each sample_externals ([] @ 1 # []) sample_page),
            doc (each sample_externals ([] @ 1 # []) sample_page))))) = [6, 201, 207]
   \<and> keydownHandlers (each_body sample_externals 7 (each sample_externals ([] @ 1 # []) sample_page)) =
       keydownHandlers (each sample_externals ([] @ 1 # []) sample_page) @
       [(6, 7), (201, 7), (207, 7)]
   \<and> map_of (attrs (elem (doc (each_body sample_externals 7
         (each sample_externals ([] @ 1 # []) sample_page))) 201)) ''placeholder'' =
       Some ''Filter results''
   \<and> activeElement (doc (each_body sample_externals 7
         (each sample_externals ([] @ 1 # []) sample_page))) = Some 207
   \<and> select_filter_input (snd (snd
        (dataTable sample_externals 1 (build_optionTable (doc disabled_page) 1)
           (ext disabled_page, doc disabled_page)))) = [6, 16]
   \<and> disabled (elem (doc disabled_page) 16)
   \<and> activeElement (doc (each_body sample_externals 1 disabled_page)) = Some 6
   \<and> (201, 1) \<in> set (keydownHandlers (each sample_externals ([] @ 1 # []) sample_page))
   \<and> 1 \<in> set (bound_to (init sample_externals sample_page) 201)
   \<and> 7 \<in> set (bound_to (init sample_externals sample_page) 201)
   \<and> (\<exists>v. FnFilterCall 1 v
         \<in> set (calls (trigger_keydown sample_externals 201 (init sample_externals sample_page))))
   \<and> (\<exists>v. FnFilterCall 7 v
         \<in> set (calls (trigger_keydown sample_externals 201 (init sample_externals sample_page))))"
proof -
  let ?s1 = "each sample_externals [] sample_page"
  let ?s2 = "each sample_externals ([] @ 1 # []) sample_page"
  let ?R1 = "dataTable sample_externals 1 (build_optionTable (doc ?s1) 1) (ext ?s1, doc ?s1)"
  let ?R2 = "dataTable sample_externals 7 (build_optionTable (doc ?s2) 7) (ext ?s2, doc ?s2)"
  have a1: "select_class (doc sample_page) ''tablesorter-js'' = [] @ 1 # [] @ 7 # [10, 11]"
    by code_simp
  have r1: "?R1 = (fst ?R1, fst (snd ?R1), snd (snd ?R1))"
    and r2: "?R2 = (fst ?R2, fst (snd ?R2), snd (snd ?R2))"
    by (simp_all only: prod.collapse)
  have f1: "select_filter_input (snd (snd ?R1)) = [6, 201]"
    and f2: "select_filter_input (snd (snd ?R2)) = [6, 201, 207]"
    by code_simp+
  have i1: "201 \<in> set (select_filter_input (snd (snd ?R1)))"
    and i2: "201 \<in> set (select_filter_input (snd (snd ?R2)))"
    unfolding f1 f2 by simp_all
  have o: "fst ?R1 = 1" "fst ?R2 = 7"
    by code_simp+
  let ?R3 = "dataTable sample_externals 1 (build_optionTable (doc disabled_page) 1)
               (ext disabled_page, doc disabled_page)"
  have r3: "?R3 = (fst ?R3, fst (snd ?R3), snd (snd ?R3))"
    by (simp only: prod.collapse)
  have f3: "select_filter_input (snd (snd ?R3)) = [6, 16]"
    by code_simp
  have g2: "filter (focusable (doc (snd (snd (instantiate sample_externals 7 ?s2)))))
              [6, 201, 207] = [6, 201, 207]"
    by code_simp
  have g3: "filter (focusable (doc (snd (snd (instantiate sample_externals 1 disabled_page)))))
              [6, 16] = [6]"
    and dis: "disabled (elem (doc disabled_page) 16)"
    by code_simp+
  note t3 = filter_inputs_wired_document_wide [OF a1 refl r1 refl r2 i1 i2 refl,
      of 1 disabled_page "fst ?R3" "fst (snd ?R3)" "snd (snd ?R3)", unfolded f3 g3]
  from t3 r3 [unfolded f3]
  have a3: "activeElement (doc (each_body sample_externals 1 disabled_page)) = Some 6"
    by simp
  note t = filter_inputs_wired_document_wide [OF a1 refl r1 refl r2 i1 i2 refl,
      of 7 ?s2 "fst ?R2" "fst (snd ?R2)" "snd (snd ?R2)", unfolded o f2 g2]
  from t r2 [unfolded o f2] have
    "keydownHandlers (each_body sample_externals 7 ?s2) =
       keydownHandlers ?s2 @ map (\<lambda>i. (i, 7)) [6, 201, 207]"
    and "\<forall>i \<in> set [6, 201, 207].
       map_of (attrs (elem (doc (each_body sample_externals 7 ?s2)) i)) ''placeholder'' =
         Some ''Filter results''"
    and "activeElement (doc (each_body sample_externals 7 ?s2)) = Some (last [6, 201, 207])"
    by simp_all
  moreover from t have "(201, 1) \<in> set (keydownHandlers ?s2)"
    and "1 \<in> set (bound_to (init sample_externals sample_page) 201)"
    and "7 \<in> set (bound_to (init sample_externals sample_page) 201)"
    and "\<exists>v. FnFilterCall 1 v
         \<in> set (calls (trigger_keydown sample_externals 201 (init sample_externals sample_page)))"
    and "\<exists>v. FnFilterCall 7 v
         \<in> set (calls (trigger_keydown sample_externals 201 (init sample_externals sample_page)))"
    by blast+
  ultimately show ?thesis
    using a1 f1 f2 f3 dis a3 by (intro conjI) simp_all
qed


end
